theory Spec2Isabelle
  imports Main "HOL-Library.Sublist"
begin

section \<open>Commit classification (GitUtils.determineReleaseType)\<close>

text \<open>
  The release impact of a commit, \<^verbatim>\<open>"major" | "minor" | "patch"\<close> in the source.
\<close>

datatype release_type = Patch | Minor | Major

text \<open>
  What the conventional-commit grammar parser hands back, restricted to the fields the
  repository reads. A field that the parser leaves \<^verbatim>\<open>null\<close> or \<^verbatim>\<open>undefined\<close> is
  \<open>None\<close>; the source reaches \<^verbatim>\<open>notes\<close> through \<^verbatim>\<open>?.\<close>, so it may be absent too.
\<close>

record commit_note =
  note_title :: string
  note_text :: string

record parsed_commit =
  p_type :: "string option"
  p_scope :: "string option"
  p_subject :: "string option"
  p_body :: "string option"
  p_notes :: "commit_note list option"

text \<open>
  \<^verbatim>\<open>parsed.notes?.some((note) => note.title === "BREAKING CHANGE")\<close>, read as a
  condition: an absent \<^verbatim>\<open>notes\<close> gives \<^verbatim>\<open>undefined\<close>, which is falsy.
\<close>

definition hasBreakingNote :: "parsed_commit \<Rightarrow> bool" where
  "hasBreakingNote parsed =
     (case p_notes parsed of
        None \<Rightarrow> False
      | Some notes \<Rightarrow> list_ex (\<lambda>note. note_title note = ''BREAKING CHANGE'') notes)"

definition determineReleaseType :: "parsed_commit \<Rightarrow> release_type" where
  "determineReleaseType parsed =
     (if hasBreakingNote parsed then Major
      else if p_type parsed = Some ''feat'' then Minor
      else if p_type parsed = Some ''fix'' \<or> p_type parsed = Some ''perf'' then Patch
      else Patch)"

section \<open>Strings\<close>

text \<open>
  Strings are lists of characters. The source's strings are sequences of UTF-16 code
  units; the model has the 256 characters of \<^typ>\<open>char\<close>, which covers every
  character the code tests for by value (tab, the pipe, the slash, the dot, the digits,
  the letter v) and the white space below U+0100.
\<close>

definition TAB :: char where
  "TAB = CHR 0x09"

text \<open>\<^verbatim>\<open>s.startsWith(t)\<close> and \<^verbatim>\<open>s.includes(t)\<close>.\<close>

definition startsWith :: "string \<Rightarrow> string \<Rightarrow> bool" where
  "startsWith s t = prefix t s"

fun includesStr :: "string \<Rightarrow> string \<Rightarrow> bool" where
  "includesStr [] t = (t = [])"
| "includesStr (c # s) t = (prefix t (c # s) \<or> includesStr s t)"

text \<open>
  \<^verbatim>\<open>s.trim()\<close> strips white space and line terminators from both ends: tab, line
  feed, vertical tab, form feed, carriage return, space and the no-break space.
\<close>

definition isWhiteSpace :: "char \<Rightarrow> bool" where
  "isWhiteSpace c =
     (c = CHR 0x09 \<or> c = CHR 0x0A \<or> c = CHR 0x0B \<or> c = CHR 0x0C \<or> c = CHR 0x0D
      \<or> c = CHR 0x20 \<or> c = CHR 0xA0)"

definition trim :: "string \<Rightarrow> string" where
  "trim s = rev (dropWhile isWhiteSpace (rev (dropWhile isWhiteSpace s)))"

text \<open>
  \<^verbatim>\<open>s.split(sep)\<close> for a separator of one character: the pieces between the
  separators, the empty pieces included; the empty string gives one empty piece.
\<close>

fun splitStr :: "char \<Rightarrow> string \<Rightarrow> string list" where
  "splitStr sep [] = [[]]"
| "splitStr sep (c # s) =
     (if c = sep then [] # splitStr sep s
      else (case splitStr sep s of
              [] \<Rightarrow> [[c]]
            | piece # pieces \<Rightarrow> (c # piece) # pieces))"

text \<open>
  Array destructuring \<^verbatim>\<open>const [a, b, c] = parts\<close>: a position past the end is
  \<^verbatim>\<open>undefined\<close>, here \<open>None\<close>.
\<close>

definition element :: "'a list \<Rightarrow> nat \<Rightarrow> 'a option" where
  "element xs i = (if i < length xs then Some (xs ! i) else None)"

text \<open>
  \<^verbatim>\<open>v || d\<close> on a string that may be \<^verbatim>\<open>undefined\<close>: the empty string is falsy
  like \<^verbatim>\<open>undefined\<close>.
\<close>


definition orElse :: "string option \<Rightarrow> string \<Rightarrow> string" where
  "orElse v d = (case v of None \<Rightarrow> d | Some s \<Rightarrow> if s = [] then d else s)"

text \<open>\<^verbatim>\<open>v || undefined\<close>.\<close>

definition orUndefined :: "string option \<Rightarrow> string option" where
  "orUndefined v = (case v of None \<Rightarrow> None | Some s \<Rightarrow> if s = [] then None else Some s)"

text \<open>
  The output of a shell command read line by line
  (\<^verbatim>\<open>for await (const line of $`...`.lines())\<close>): the lines it yields and, when the
  command fails, the error thrown once they are consumed.
\<close>

record shell_output =
  out_lines :: "string list"
  out_error :: "string option"

section \<open>Tags (GitUtils.getAllTags, GitUtils.getLatestVersionTag)\<close>

record version =
  v_major :: nat
  v_minor :: nat
  v_patch :: nat
  v_prerelease :: string

text \<open>
  \<^verbatim>\<open>GitTag\<close>. The \<^verbatim>\<open>date\<close> field holds the text handed to \<^verbatim>\<open>new Date\<close>; how the
  runtime reads a date is not modelled.
\<close>

record GitTag =
  tag_name :: string
  tag_hash :: string
  tag_date :: string
  isVersionTag :: bool
  tag_version :: "version option"

definition isDigit :: "char \<Rightarrow> bool" where
  "isDigit c = (c \<in> set ''0123456789'')"

text \<open>The regular expression's dot: any character but a line terminator.\<close>

definition isLineTerminator :: "char \<Rightarrow> bool" where
  "isLineTerminator c = (c = CHR 0x0A \<or> c = CHR 0x0D)"

text \<open>
  One \<^verbatim>\<open>(\d+)\<close> followed by what comes next in the expression: the longest run of
  digits, which must not be empty, and the rest of the input. The run is followed by a
  literal or by the end of the input, neither of them a digit, so no shorter run can match.
\<close>

definition digits :: "string \<Rightarrow> (string \<times> string) option" where
  "digits s =
     (let ds = takeWhile isDigit s
      in if ds = [] then None else Some (ds, dropWhile isDigit s))"

text \<open>A literal \<^verbatim>\<open>\.\<close>: the rest of the input after the dot.\<close>

definition dot :: "string \<Rightarrow> string option" where
  "dot s = (case s of [] \<Rightarrow> None | c # r \<Rightarrow> if c = CHR ''.'' then Some r else None)"

text \<open>
  \<^verbatim>\<open>(?:-(.+))?$\<close>: at the end of the input the group does not take part (\<open>Some None\<close>);
  a dash followed by one character or more, none a line terminator, up to the end of the
  input, is captured (\<open>Some (Some p)\<close>); anything else does not match.
\<close>

definition prereleaseSuffix :: "string \<Rightarrow> string option option" where
  "prereleaseSuffix s =
     (case s of
        [] \<Rightarrow> Some None
      | c # p \<Rightarrow>
          if c = CHR ''-'' \<and> p \<noteq> [] \<and> \<not> list_ex isLineTerminator p then Some (Some p)
          else None)"

text \<open>
  \<^verbatim>\<open>name.match(/^v?(\d+)\.(\d+)\.(\d+)(?:-(.+))?$/)\<close>: the four groups of the match, or
  \<open>None\<close> for \<^verbatim>\<open>null\<close>.
\<close>

definition versionRegExp :: "string \<Rightarrow> (string \<times> string \<times> string \<times> string option) option" where
  "versionRegExp name =
     (let s = (case name of [] \<Rightarrow> [] | c # r \<Rightarrow> if c = CHR ''v'' then r else name)
      in case digits s of
           None \<Rightarrow> None
         | Some (g1, s1) \<Rightarrow>
             (case dot s1 of
                None \<Rightarrow> None
              | Some s2 \<Rightarrow>
                  (case digits s2 of
                     None \<Rightarrow> None
                   | Some (g2, s3) \<Rightarrow>
                       (case dot s3 of
                          None \<Rightarrow> None
                        | Some s4 \<Rightarrow>
                            (case digits s4 of
                               None \<Rightarrow> None
                             | Some (g3, s5) \<Rightarrow>
                                 (case prereleaseSuffix s5 of
                                    None \<Rightarrow> None
                                  | Some g4 \<Rightarrow> Some (g1, g2, g3, g4)))))))"

text \<open>
  \<^verbatim>\<open>parseInt(ds, 10)\<close> on a run of decimal digits, the only strings the source applies
  it to: the number the digits denote. The source's numbers are IEEE doubles, exact up to
  \<open>2^53\<close>; the model agrees with the source on runs of at most fifteen digits, and the
  theorems about parsed components are stated for such runs.
\<close>

definition digitValue :: "char \<Rightarrow> nat" where
  "digitValue c = of_char c - of_char (CHR ''0'')"

definition parseInt :: "string \<Rightarrow> nat" where
  "parseInt ds = foldl (\<lambda>n c. 10 * n + digitValue c) 0 ds"

text \<open>
  The tag built from the three fields of a line: the version detection and the record
  that is pushed.
\<close>

definition makeTag :: "string \<Rightarrow> string \<Rightarrow> string \<Rightarrow> GitTag" where
  "makeTag hash dateStr name =
     (let versionMatch = versionRegExp name
      in \<lparr>tag_name = name,
          tag_hash = hash,
          tag_date = dateStr,
          isVersionTag = (versionMatch \<noteq> None),
          tag_version =
            (case versionMatch of
               None \<Rightarrow> None
             | Some (g1, g2, g3, g4) \<Rightarrow>
                 Some \<lparr>v_major = parseInt g1,
                       v_minor = parseInt g2,
                       v_patch = parseInt g3,
                       v_prerelease = orElse g4 ''none''\<rparr>)\<rparr>)"

text \<open>
  The body of the loop of \<^verbatim>\<open>getAllTags\<close> for one line: \<open>None\<close> when the line is
  skipped (blank, or one of the first three tab-separated fields \<^verbatim>\<open>undefined\<close> or
  empty, the two falsy cases of \<^verbatim>\<open>!hash || !dateStr || !name\<close>), the tag pushed
  otherwise.
\<close>

definition parseTagLine :: "string \<Rightarrow> GitTag option" where
  "parseTagLine tag =
     (if trim tag \<noteq> [] then
        (let parts = splitStr TAB tag
         in case (element parts 0, element parts 1, element parts 2) of
              (Some hash, Some dateStr, Some name) \<Rightarrow>
                if hash = [] \<or> dateStr = [] \<or> name = [] then None
                else Some (makeTag hash dateStr name)
            | _ \<Rightarrow> None)
      else None)"

text \<open>The loop over the lines, \<open>result\<close> being the array the tags are pushed to.\<close>

fun tagLoop :: "string list \<Rightarrow> GitTag list \<Rightarrow> GitTag list" where
  "tagLoop [] result = result"
| "tagLoop (tag # rest) result =
     tagLoop rest (case parseTagLine tag of None \<Rightarrow> result | Some t \<Rightarrow> result @ [t])"

text \<open>
  \<^verbatim>\<open>getAllTags\<close>: the tags and the warnings written to the console. When the
  command fails, the tags collected so far are abandoned for the empty array.
\<close>

definition getAllTags :: "shell_output \<Rightarrow> GitTag list \<times> string list" where
  "getAllTags tagOutput =
     (case out_error tagOutput of
        None \<Rightarrow> (tagLoop (out_lines tagOutput) [], [])
      | Some error \<Rightarrow> ([], [''Warning: Could not retrieve git tags: '' @ error]))"

text \<open>\<^verbatim>\<open>getLatestVersionTag\<close>: \<^verbatim>\<open>allTags.find((tag) => tag.isVersionTag) || null\<close>.\<close>

definition getLatestVersionTag :: "shell_output \<Rightarrow> GitTag option" where
  "getLatestVersionTag tagOutput = find isVersionTag (fst (getAllTags tagOutput))"

section \<open>Commits in a range (GitUtils.getCommitsInRange)\<close>

record author =
  author_name :: string
  author_email :: string
  author_date :: string

text \<open>\<^verbatim>\<open>ConventionalCommit\<close>; an optional field left \<^verbatim>\<open>undefined\<close> is \<open>None\<close>.\<close>

record ConventionalCommit =
  c_hash :: string
  shortHash :: string
  rawMessage :: string
  c_type :: string
  c_scope :: "string option"
  description :: string
  c_body :: "string option"
  breakingChange :: "string option"
  isBreaking :: bool
  releaseType :: release_type
  c_author :: author
  changedFiles :: "string list"

text \<open>
  The commands and the parser \<^verbatim>\<open>getCommitsInRange\<close> calls, as the results they give:
  the tag listing, the text of \<^verbatim>\<open>git rev-list --max-parents=0 HEAD\<close> or its error, the
  log of a range, the changed files of a commit, and the conventional-commit parser,
  which may throw.
\<close>

record git =
  gitTag :: shell_output
  gitRevListRoot :: "string + string"
  gitLog :: "string \<Rightarrow> shell_output"
  gitDiffTree :: "string \<Rightarrow> shell_output"
  conventionalCommitsParser :: "string \<Rightarrow> string + parsed_commit"

text \<open>
  \<^verbatim>\<open>getChangedFilesForCommit\<close>, given the output of \<^verbatim>\<open>git diff-tree\<close> for the
  commit: the files and the warnings written to the console.
\<close>

definition getChangedFilesForCommit :: "string \<Rightarrow> shell_output \<Rightarrow> string list \<times> string list" where
  "getChangedFilesForCommit commitHash diffOutput =
     (case out_error diffOutput of
        None \<Rightarrow> (filter (\<lambda>f. trim f \<noteq> []) (map trim (out_lines diffOutput)), [])
      | Some error \<Rightarrow>
          ([], [''Warning: Could not get changed files for commit '' @ commitHash @ '': '' @ error]))"

text \<open>
  The starting point of the range: \<^verbatim>\<open>fromRef\<close> when it is truthy, else the name of
  the latest version tag, else the trimmed output of the root-commit query, whose failure
  is thrown.
\<close>

definition latestTagOrRoot :: "git \<Rightarrow> string + string" where
  "latestTagOrRoot g =
     (case getLatestVersionTag (gitTag g) of
        Some latestTag \<Rightarrow> Inr (tag_name latestTag)
      | None \<Rightarrow>
          (case gitRevListRoot g of
             Inl error \<Rightarrow> Inl error
           | Inr rootCommit \<Rightarrow> Inr (trim rootCommit)))"

definition startRefOf :: "git \<Rightarrow> string option \<Rightarrow> string + string" where
  "startRefOf g fromRef =
     (case fromRef of
        None \<Rightarrow> latestTagOrRoot g
      | Some startRef \<Rightarrow> if startRef = [] then latestTagOrRoot g else Inr startRef)"

definition rangeSpecOf :: "string \<Rightarrow> string \<Rightarrow> string" where
  "rangeSpecOf startRef toRef =
     (if startRef = toRef then startRef else startRef @ ''..'' @ toRef)"

text \<open>
  The first loop: \<^verbatim>\<open>if (!result.trim()) { commitsResult.push(result.trim()); }\<close>. A
  string is falsy when it is empty, so the lines kept are the blank ones.
\<close>

definition commitsResultOf :: "string list \<Rightarrow> string list" where
  "commitsResultOf logLines = map trim (filter (\<lambda>result. trim result = []) logLines)"

definition breakingNoteText :: "parsed_commit \<Rightarrow> string option" where
  "breakingNoteText parsed =
     (case p_notes parsed of
        None \<Rightarrow> None
      | Some notes \<Rightarrow>
          map_option note_text (find (\<lambda>note. note_title note = ''BREAKING CHANGE'') notes))"

text \<open>
  The body of the second loop for one block: \<open>Inr None\<close> when the block is skipped for
  having fewer than six fields, \<open>Inl\<close> when the parser throws.
\<close>

definition assembleCommit :: "git \<Rightarrow> string \<Rightarrow> string + ConventionalCommit option" where
  "assembleCommit g block =
     (let parts = splitStr (CHR ''|'') block
      in if length parts < 6 then Inr None
         else
           (let hash = parts ! 0; shortHash = parts ! 1; authorName = parts ! 2;
                authorEmail = parts ! 3; authorDate = parts ! 4; subject = parts ! 5;
                body = element parts 6;
                fullMessage =
                  (case body of
                     None \<Rightarrow> subject
                   | Some b \<Rightarrow> if b = [] then subject else subject @ [CHR 0x0A, CHR 0x0A] @ b)
            in case conventionalCommitsParser g fullMessage of
                 Inl error \<Rightarrow> Inl error
               | Inr parsed \<Rightarrow>
                   Inr (Some
                     \<lparr>c_hash = hash,
                      shortHash = shortHash,
                      rawMessage = fullMessage,
                      c_type = orElse (p_type parsed) ''unknown'',
                      c_scope = orUndefined (p_scope parsed),
                      description = orElse (p_subject parsed) subject,
                      c_body = orUndefined (p_body parsed),
                      breakingChange = breakingNoteText parsed,
                      isBreaking = hasBreakingNote parsed,
                      releaseType = determineReleaseType parsed,
                      c_author = \<lparr>author_name = authorName, author_email = authorEmail,
                                  author_date = authorDate\<rparr>,
                      changedFiles = fst (getChangedFilesForCommit hash (gitDiffTree g hash))\<rparr>)))"

fun commitLoop :: "git \<Rightarrow> string list \<Rightarrow> ConventionalCommit list \<Rightarrow> string + ConventionalCommit list" where
  "commitLoop g [] commits = Inr commits"
| "commitLoop g (block # blocks) commits =
     (case assembleCommit g block of
        Inl error \<Rightarrow> Inl error
      | Inr None \<Rightarrow> commitLoop g blocks commits
      | Inr (Some conventionalCommit) \<Rightarrow> commitLoop g blocks (commits @ [conventionalCommit]))"

text \<open>The body of the \<^verbatim>\<open>try\<close> block; \<open>Inl\<close> is what it throws.\<close>

definition commitsInRangeBody :: "git \<Rightarrow> string option \<Rightarrow> string \<Rightarrow> string + ConventionalCommit list" where
  "commitsInRangeBody g fromRef toRef =
     (case startRefOf g fromRef of
        Inl error \<Rightarrow> Inl error
      | Inr startRef \<Rightarrow>
          (let logOutput = gitLog g (rangeSpecOf startRef toRef)
           in case out_error logOutput of
                Some error \<Rightarrow> Inl error
              | None \<Rightarrow>
                  (let commitsResult = commitsResultOf (out_lines logOutput)
                   in if length commitsResult = 0 then Inr []
                      else commitLoop g commitsResult [])))"

text \<open>
  \<^verbatim>\<open>getCommitsInRange(fromRef?, toRef = "HEAD")\<close>: an argument left out is \<open>None\<close>.
  Whatever the body throws is thrown again under the message naming the range, in which
  an absent \<^verbatim>\<open>fromRef\<close> prints as \<^verbatim>\<open>undefined\<close>.
\<close>

definition getCommitsInRange :: "git \<Rightarrow> string option \<Rightarrow> string option \<Rightarrow> string + ConventionalCommit list" where
  "getCommitsInRange g fromRef toRefArg =
     (let toRef = (case toRefArg of None \<Rightarrow> ''HEAD'' | Some r \<Rightarrow> r)
      in case commitsInRangeBody g fromRef toRef of
           Inl error \<Rightarrow>
             Inl (''Failed to get commits in range ''
                  @ (case fromRef of None \<Rightarrow> ''undefined'' | Some r \<Rightarrow> r)
                  @ ''..'' @ toRef @ '': '' @ error)
         | Inr commits \<Rightarrow> Inr commits)"

section \<open>Paths\<close>

text \<open>
  \<^verbatim>\<open>path.sep\<close> and \<^verbatim>\<open>path.normalize\<close> come from the runtime's \<^verbatim>\<open>path\<close> module,
  which is not part of the repository. They are modelled for a POSIX platform, on the
  module's documented behaviour: the separator is the slash; normalising drops empty and
  \<^verbatim>\<open>.\<close> segments, resolves a \<^verbatim>\<open>..\<close> segment against the segment before it (keeping
  it at the front of a relative path, dropping it at the root of an absolute one), keeps
  a leading and a trailing slash, and gives \<^verbatim>\<open>.\<close> for the empty path.
\<close>

definition path_sep :: string where
  "path_sep = ''/''"

fun joinStr :: "string \<Rightarrow> string list \<Rightarrow> string" where
  "joinStr sep [] = []"
| "joinStr sep [x] = x"
| "joinStr sep (x # y # ys) = x @ sep @ joinStr sep (y # ys)"

fun normalizeSegments :: "bool \<Rightarrow> string list \<Rightarrow> string list \<Rightarrow> string list" where
  "normalizeSegments allowAboveRoot res [] = res"
| "normalizeSegments allowAboveRoot res (seg # segs) =
     (if seg = [] \<or> seg = ''.'' then normalizeSegments allowAboveRoot res segs
      else if seg = ''..'' then
        (if res \<noteq> [] \<and> last res \<noteq> ''..'' then normalizeSegments allowAboveRoot (butlast res) segs
         else if allowAboveRoot then normalizeSegments allowAboveRoot (res @ [''..'']) segs
         else normalizeSegments allowAboveRoot res segs)
      else normalizeSegments allowAboveRoot (res @ [seg]) segs)"

definition normalize :: "string \<Rightarrow> string" where
  "normalize p =
     (if p = [] then ''.''
      else
        (let isAbsolute = (hd p = CHR ''/'');
             trailingSeparator = (last p = CHR ''/'');
             res = joinStr ''/'' (normalizeSegments (\<not> isAbsolute) [] (splitStr (CHR ''/'') p))
         in if res = [] then (if isAbsolute then ''/'' else if trailingSeparator then ''./'' else ''.'')
            else (if isAbsolute then ''/'' else []) @ res @ (if trailingSeparator then ''/'' else [])))"

section \<open>Package impact (GitUtils.isFileInPackage, GitUtils.analyzePackageChanges)\<close>

definition isFileInPackage :: "string \<Rightarrow> string \<Rightarrow> bool" where
  "isFileInPackage filePath packagePath =
     (let normalizedFilePath = normalize filePath;
          normalizedPackagePath = normalize packagePath
      in if normalizedPackagePath = ''.'' \<or> normalizedPackagePath = [] then
           \<not> includesStr normalizedFilePath path_sep \<or> startsWith normalizedFilePath ''.''
         else
           startsWith normalizedFilePath (normalizedPackagePath @ path_sep)
           \<or> normalizedFilePath = normalizedPackagePath)"

text \<open>\<^verbatim>\<open>WorkspaceMember\<close>; the aggregator reads its name and its relative path.\<close>

record WorkspaceMember =
  name :: string
  path :: string
  relativePath :: string
  version :: string
  publishable :: bool
  isPrivate :: bool

record PackageChanges =
  packageName :: string
  packagePath :: string
  affectingCommits :: "ConventionalCommit list"
  suggestedReleaseType :: release_type

text \<open>
  A \<^verbatim>\<open>Map\<close> keeps its keys in the order of their first insertion; setting a key
  that is present replaces the value where it stands. A \<^verbatim>\<open>Set\<close> keeps its elements
  in the order of insertion and ignores an element it has. Both are lists here.
\<close>

fun mapSet :: "'k \<Rightarrow> 'v \<Rightarrow> ('k \<times> 'v) list \<Rightarrow> ('k \<times> 'v) list" where
  "mapSet k v [] = [(k, v)]"
| "mapSet k v ((k', v') # m) = (if k' = k then (k, v) # m else (k', v') # mapSet k v m)"

definition mapGet :: "'k \<Rightarrow> ('k \<times> 'v) list \<Rightarrow> 'v option" where
  "mapGet k m = map_of m k"

definition mapValues :: "('k \<times> 'v) list \<Rightarrow> 'v list" where
  "mapValues m = map snd m"

definition setAdd :: "'a \<Rightarrow> 'a list \<Rightarrow> 'a list" where
  "setAdd x s = (if x \<in> set s then s else s @ [x])"

text \<open>The map initialised with one zero record for every workspace package.\<close>

definition initialPackageChange :: "WorkspaceMember \<Rightarrow> PackageChanges" where
  "initialPackageChange pkg =
     \<lparr>packageName = name pkg, packagePath = relativePath pkg, affectingCommits = [],
      suggestedReleaseType = Patch\<rparr>"

definition initialMap :: "WorkspaceMember list \<Rightarrow> (string \<times> PackageChanges) list" where
  "initialMap workspacePackages =
     foldl (\<lambda>m pkg. mapSet (name pkg) (initialPackageChange pkg) m) [] workspacePackages"

text \<open>
  The set \<^verbatim>\<open>affectedPackages\<close> of one commit: for each changed file, for each
  package, the package's name is added when the file is in the package.
\<close>

definition affectedPackages :: "ConventionalCommit \<Rightarrow> WorkspaceMember list \<Rightarrow> string list" where
  "affectedPackages commit workspacePackages =
     foldl (\<lambda>affected changedFile.
              foldl (\<lambda>affected pkg.
                       if isFileInPackage changedFile (relativePath pkg)
                       then setAdd (name pkg) affected else affected)
                    affected workspacePackages)
           [] (changedFiles commit)"

text \<open>The update of one affected package's record by a commit.\<close>

definition recordCommit :: "ConventionalCommit \<Rightarrow> PackageChanges \<Rightarrow> PackageChanges" where
  "recordCommit commit packageChanges =
     packageChanges
       \<lparr>affectingCommits := affectingCommits packageChanges @ [commit],
        suggestedReleaseType :=
          (if releaseType commit = Major
              \<or> (releaseType commit = Minor \<and> suggestedReleaseType packageChanges = Patch)
           then releaseType commit
           else suggestedReleaseType packageChanges)\<rparr>"

definition updatePackage ::
  "ConventionalCommit \<Rightarrow> (string \<times> PackageChanges) list \<Rightarrow> string \<Rightarrow> (string \<times> PackageChanges) list" where
  "updatePackage commit m key =
     (case mapGet key m of
        None \<Rightarrow> m
      | Some packageChanges \<Rightarrow> mapSet key (recordCommit commit packageChanges) m)"

text \<open>One round of the loop over the commits.\<close>

definition processCommit ::
  "WorkspaceMember list \<Rightarrow> (string \<times> PackageChanges) list \<Rightarrow> ConventionalCommit
     \<Rightarrow> (string \<times> PackageChanges) list" where
  "processCommit workspacePackages m commit =
     foldl (updatePackage commit) m (affectedPackages commit workspacePackages)"

text \<open>\<^verbatim>\<open>packageChangesMap\<close> when both loops are done.\<close>

definition packageChangesMap ::
  "ConventionalCommit list \<Rightarrow> WorkspaceMember list \<Rightarrow> (string \<times> PackageChanges) list" where
  "packageChangesMap commits workspacePackages =
     foldl (processCommit workspacePackages) (initialMap workspacePackages) commits"

definition analyzePackageChanges :: "ConventionalCommit list \<Rightarrow> WorkspaceMember list \<Rightarrow> PackageChanges list" where
  "analyzePackageChanges commits workspacePackages =
     filter (\<lambda>pkg. length (affectingCommits pkg) > 0)
       (mapValues (packageChangesMap commits workspacePackages))"

section \<open>Workspace (WorkspaceUtils)\<close>

text \<open>\<^verbatim>\<open>path.join\<close> of two parts and \<^verbatim>\<open>path.basename\<close>, of the same module.\<close>

definition path_join :: "string \<Rightarrow> string \<Rightarrow> string" where
  "path_join a b =
     (if a = [] then (if b = [] then ''.'' else normalize b)
      else if b = [] then normalize a
      else normalize (a @ ''/'' @ b))"

definition basename :: "string \<Rightarrow> string" where
  "basename p =
     rev (takeWhile (\<lambda>c. c \<noteq> CHR ''/'') (dropWhile (\<lambda>c. c = CHR ''/'') (rev p)))"

text \<open>
  The \<^verbatim>\<open>workspaces\<close> field of a manifest: absent, an array of patterns, or an
  object whose \<^verbatim>\<open>packages\<close> may be absent.
\<close>

datatype workspaces_field = WsAbsent | WsArray "string list" | WsObject "string list option"

text \<open>
  The fields of \<^verbatim>\<open>PackageJson\<close> that the code reads; \<^verbatim>\<open>publishConfig\<close> and
  \<^verbatim>\<open>private\<close> are read through \<^verbatim>\<open>Boolean(...)\<close> only and are kept as that truth value.
\<close>

record PackageJson =
  pj_name :: "string option"
  pj_version :: "string option"
  pj_publishConfig :: bool
  pj_private :: bool
  workspaces :: workspaces_field

text \<open>
  What \<^verbatim>\<open>Bun.file(p)\<close> gives for a path: no file (\<^verbatim>\<open>exists()\<close> is false and
  \<^verbatim>\<open>json()\<close> throws the message), a file that \<^verbatim>\<open>json()\<close> cannot parse, the JSON
  value \<^verbatim>\<open>null\<close>, or a manifest.
\<close>

datatype json_file = Missing string | Unparseable string | JsonNull | Json PackageJson

text \<open>
  What the instance reads from outside: the working directory of the process, the text
  of \<^verbatim>\<open>git rev-parse --show-toplevel\<close> or its error, the file at a path, the
  relative paths that \<^verbatim>\<open>glob\<close> finds for a pattern under the root path or its error,
  and \<^verbatim>\<open>localeCompare\<close> on two names.
\<close>

record workspace_env =
  cwd :: string
  gitToplevel :: "string + string"
  fileAt :: "string \<Rightarrow> json_file"
  glob :: "string \<Rightarrow> string + string list"
  localeCompare :: "string \<Rightarrow> string \<Rightarrow> int"

datatype ws_error = ShellError string | Error string | TypeError

text \<open>The fields of a \<^verbatim>\<open>WorkspaceUtils\<close> instance, \<open>None\<close> for \<^verbatim>\<open>null\<close>.\<close>

record WorkspaceUtils =
  rootPath :: string
  rootPackageJson :: "PackageJson option"
  workspaceMembers :: "WorkspaceMember list option"
  isMonorepo :: "bool option"

definition newWorkspaceUtils :: "workspace_env \<Rightarrow> WorkspaceUtils" where
  "newWorkspaceUtils env =
     \<lparr>rootPath = cwd env, rootPackageJson = None, workspaceMembers = None, isMonorepo = None\<rparr>"

text \<open>
  Each method returns its result, \<open>Inl\<close> for what it throws, and the instance as the call
  leaves it. Console output is not part of this model.
\<close>

definition getRootPackageJson ::
  "workspace_env \<Rightarrow> WorkspaceUtils \<Rightarrow> (ws_error + PackageJson option) \<times> WorkspaceUtils" where
  "getRootPackageJson env this =
     (case rootPackageJson this of
        Some cached \<Rightarrow> (Inr (Some cached), this)
      | None \<Rightarrow>
          (case gitToplevel env of
             Inl error \<Rightarrow> (Inl (ShellError error), this)
           | Inr toplevel \<Rightarrow>
               (case fileAt env (path_join toplevel ''package.json'') of
                  Missing error \<Rightarrow> (Inl (Error (''Failed to parse package.json: '' @ error)), this)
                | Unparseable error \<Rightarrow>
                    (Inl (Error (''Failed to parse package.json: '' @ error)), this)
                | JsonNull \<Rightarrow> (Inr None, this)
                | Json packageJson \<Rightarrow>
                    (Inr (Some packageJson), this\<lparr>rootPackageJson := Some packageJson\<rparr>))))"

text \<open>
  \<^verbatim>\<open>getIsMonorepo\<close>. Reading \<^verbatim>\<open>workspaces\<close> off \<^verbatim>\<open>null\<close> throws inside the
  \<^verbatim>\<open>try\<close>, so it ends in the \<^verbatim>\<open>catch\<close> like a failed read.
\<close>

definition getIsMonorepo :: "workspace_env \<Rightarrow> WorkspaceUtils \<Rightarrow> bool \<times> WorkspaceUtils" where
  "getIsMonorepo env this =
     (case isMonorepo this of
        Some cached \<Rightarrow> (cached, this)
      | None \<Rightarrow>
          (case getRootPackageJson env this of
             (Inl error, this1) \<Rightarrow> (False, this1\<lparr>isMonorepo := Some False\<rparr>)
           | (Inr None, this1) \<Rightarrow> (False, this1\<lparr>isMonorepo := Some False\<rparr>)
           | (Inr (Some rootJson), this1) \<Rightarrow>
               (let result = (case workspaces rootJson of
                                WsArray patterns \<Rightarrow> length patterns > 0
                              | _ \<Rightarrow> False)
                in (result, this1\<lparr>isMonorepo := Some result\<rparr>))))"

text \<open>
  The inner loop's body for one matching path: the member pushed, or \<open>None\<close> when the
  directory has no manifest or its manifest cannot be used.
\<close>

definition memberAt :: "workspace_env \<Rightarrow> WorkspaceUtils \<Rightarrow> string \<Rightarrow> WorkspaceMember option" where
  "memberAt env this relPath =
     (let packagePath = path_join (rootPath this) relPath;
          packageJsonPath = path_join packagePath ''package.json''
      in case fileAt env packageJsonPath of
           Missing error \<Rightarrow> None
         | Unparseable error \<Rightarrow> None
         | JsonNull \<Rightarrow> None
         | Json packageJson \<Rightarrow>
             Some \<lparr>name = orElse (pj_name packageJson) (basename relPath),
                   path = packagePath,
                   relativePath = relPath,
                   version = orElse (pj_version packageJson) ''0.0.0'',
                   publishable = pj_publishConfig packageJson,
                   isPrivate = pj_private packageJson\<rparr>)"

text \<open>The outer loop's body for one pattern: the members it adds; none when glob fails.\<close>

definition membersOfPattern :: "workspace_env \<Rightarrow> WorkspaceUtils \<Rightarrow> string \<Rightarrow> WorkspaceMember list" where
  "membersOfPattern env this pattern =
     (case glob env pattern of
        Inl error \<Rightarrow> []
      | Inr matchingPaths \<Rightarrow> List.map_filter (memberAt env this) matchingPaths)"

text \<open>
  \<^verbatim>\<open>members.sort((a, b) => a.name.localeCompare(b.name))\<close>: the sort is stable, so
  each member goes behind the members that do not compare greater than it.
\<close>

fun insertSorted :: "(string \<Rightarrow> string \<Rightarrow> int) \<Rightarrow> WorkspaceMember \<Rightarrow> WorkspaceMember list \<Rightarrow> WorkspaceMember list" where
  "insertSorted cmp x [] = [x]"
| "insertSorted cmp x (y # ys) =
     (if cmp (name x) (name y) < 0 then x # y # ys else y # insertSorted cmp x ys)"

definition sortByName :: "(string \<Rightarrow> string \<Rightarrow> int) \<Rightarrow> WorkspaceMember list \<Rightarrow> WorkspaceMember list" where
  "sortByName cmp members = foldl (\<lambda>sorted x. insertSorted cmp x sorted) [] members"

definition getWorkspacePackages ::
  "workspace_env \<Rightarrow> WorkspaceUtils \<Rightarrow> (ws_error + WorkspaceMember list) \<times> WorkspaceUtils" where
  "getWorkspacePackages env this =
     (case workspaceMembers this of
        Some cached \<Rightarrow> (Inr cached, this)
      | None \<Rightarrow>
          (case getIsMonorepo env this of
             (False, this1) \<Rightarrow> (Inr [], this1\<lparr>workspaceMembers := Some []\<rparr>)
           | (True, this1) \<Rightarrow>
               (case getRootPackageJson env this1 of
                  (Inl error, this2) \<Rightarrow> (Inl error, this2)
                | (Inr None, this2) \<Rightarrow> (Inl TypeError, this2)
                | (Inr (Some rootJson), this2) \<Rightarrow>
                    (case (case workspaces rootJson of
                             WsArray patterns \<Rightarrow> Some patterns
                           | WsObject packages \<Rightarrow> packages
                           | WsAbsent \<Rightarrow> None) of
                       None \<Rightarrow> (Inl TypeError, this2\<lparr>workspaceMembers := Some []\<rparr>)
                     | Some workspacePatterns \<Rightarrow>
                         (let members =
                                sortByName (localeCompare env)
                                  (concat (map (membersOfPattern env this2) workspacePatterns))
                          in (Inr members, this2\<lparr>workspaceMembers := Some members\<rparr>))))))"

definition findPackageByName ::
  "workspace_env \<Rightarrow> WorkspaceUtils \<Rightarrow> string \<Rightarrow> (ws_error + WorkspaceMember option) \<times> WorkspaceUtils" where
  "findPackageByName env this wanted =
     (case getWorkspacePackages env this of
        (Inl error, this1) \<Rightarrow> (Inl error, this1)
      | (Inr packages, this1) \<Rightarrow> (Inr (find (\<lambda>pkg. name pkg = wanted) packages), this1))"

text \<open>The loop of \<^verbatim>\<open>findPackageByPath\<close> over the packages.\<close>

fun firstContaining :: "string \<Rightarrow> WorkspaceMember list \<Rightarrow> WorkspaceMember option" where
  "firstContaining relPath [] = None"
| "firstContaining relPath (pkg # packages) =
     (if startsWith relPath (relativePath pkg @ path_sep) \<or> relPath = relativePath pkg
      then Some pkg
      else firstContaining relPath packages)"

definition findInPackages :: "WorkspaceMember list \<Rightarrow> string \<Rightarrow> WorkspaceMember option" where
  "findInPackages packages relPath =
     (case find (\<lambda>pkg. relativePath pkg = relPath) packages of
        Some exactMatch \<Rightarrow> Some exactMatch
      | None \<Rightarrow> firstContaining relPath packages)"

definition findPackageByPath ::
  "workspace_env \<Rightarrow> WorkspaceUtils \<Rightarrow> string \<Rightarrow> (ws_error + WorkspaceMember option) \<times> WorkspaceUtils" where
  "findPackageByPath env this relPath =
     (case getWorkspacePackages env this of
        (Inl error, this1) \<Rightarrow> (Inl error, this1)
      | (Inr packages, this1) \<Rightarrow> (Inr (findInPackages packages relPath), this1))"

section \<open>The specification's notions\<close>

text \<open>
  The shape of a version tag's name in the specification's words: an optional leading
  \<^verbatim>\<open>v\<close>, then three runs of decimal digits separated by dots, then optionally a dash
  and a prerelease text, which is not empty and stays on one line.
\<close>

definition allDigits :: "string \<Rightarrow> bool" where
  "allDigits ds = (ds \<noteq> [] \<and> list_all isDigit ds)"

definition versionName :: "string \<Rightarrow> string \<Rightarrow> string \<Rightarrow> string \<Rightarrow> string option \<Rightarrow> bool" where
  "versionName tagName a b c p =
     ((tagName = a @ ''.'' @ b @ ''.'' @ c @ (case p of None \<Rightarrow> [] | Some x \<Rightarrow> ''-'' @ x)
        \<or> tagName = ''v'' @ a @ ''.'' @ b @ ''.'' @ c @ (case p of None \<Rightarrow> [] | Some x \<Rightarrow> ''-'' @ x))
      \<and> allDigits a \<and> allDigits b \<and> allDigits c
      \<and> (case p of None \<Rightarrow> True | Some x \<Rightarrow> x \<noteq> [] \<and> \<not> list_ex isLineTerminator x))"

text \<open>
  A raw line with its first three tab-separated fields: the fields hold no tab, and what
  follows the third is nothing or starts with a tab.
\<close>

definition tagLine :: "string \<Rightarrow> string \<Rightarrow> string \<Rightarrow> string \<Rightarrow> string \<Rightarrow> bool" where
  "tagLine line h d n rest =
     (line = h @ [TAB] @ d @ [TAB] @ n @ rest
      \<and> TAB \<notin> set h \<and> TAB \<notin> set d \<and> TAB \<notin> set n
      \<and> (rest = [] \<or> hd rest = TAB))"

text \<open>The severity order \<open>patch < minor < major\<close>.\<close>

fun severity :: "release_type \<Rightarrow> nat" where
  "severity Patch = 0"
| "severity Minor = 1"
| "severity Major = 2"

text \<open>
  A commit is attributed to a package name when one of its changed files is in a
  workspace package of that name.
\<close>

definition attributed :: "WorkspaceMember list \<Rightarrow> ConventionalCommit \<Rightarrow> string \<Rightarrow> bool" where
  "attributed workspacePackages commit key =
     list_ex (\<lambda>pkg. name pkg = key
                \<and> list_ex (\<lambda>changedFile. isFileInPackage changedFile (relativePath pkg))
                     (changedFiles commit))
       workspacePackages"

text \<open>The record of one package name folded over the commits attributed to it.\<close>

definition foldRecord ::
  "WorkspaceMember list \<Rightarrow> string \<Rightarrow> PackageChanges \<Rightarrow> ConventionalCommit list \<Rightarrow> PackageChanges" where
  "foldRecord pkgs k pc cs =
     foldl (\<lambda>pc c. if attributed pkgs c k then recordCommit c pc else pc) pc cs"

text \<open>
  A path is a descendant of a directory when it is the directory's path, a separator and
  something more: a prefix match bounded by the separator.
\<close>

definition descendantOf :: "string \<Rightarrow> string \<Rightarrow> bool" where
  "descendantOf relPath dir = prefix (dir @ path_sep) relPath"

text \<open>
  A path in normal form, as the diff prints the files of a commit: not empty, and no
  segment empty, \<^verbatim>\<open>.\<close> or \<^verbatim>\<open>..\<close>.
\<close>

definition cleanPath :: "string \<Rightarrow> bool" where
  "cleanPath p =
     (p \<noteq> [] \<and> list_all (\<lambda>seg. seg \<noteq> [] \<and> seg \<noteq> ''.'' \<and> seg \<noteq> ''..'') (splitStr (CHR ''/'') p))"

text \<open>
  The root manifest can be read and declares a non-empty array of workspace patterns.
\<close>

definition declaresWorkspaces :: "workspace_env \<Rightarrow> bool" where
  "declaresWorkspaces env =
     (case gitToplevel env of
        Inl error \<Rightarrow> False
      | Inr toplevel \<Rightarrow>
          (case fileAt env (path_join toplevel ''package.json'') of
             Json packageJson \<Rightarrow>
               (case workspaces packageJson of WsArray patterns \<Rightarrow> patterns \<noteq> [] | _ \<Rightarrow> False)
           | _ \<Rightarrow> False))"

section \<open>Example data\<close>

definition exampleCommit :: "string \<Rightarrow> release_type \<Rightarrow> string list \<Rightarrow> ConventionalCommit" where
  "exampleCommit h r files =
     \<lparr>c_hash = h, shortHash = h, rawMessage = ''change'', c_type = ''chore'', c_scope = None,
      description = ''change'', c_body = None, breakingChange = None, isBreaking = (r = Major),
      releaseType = r,
      c_author = \<lparr>author_name = ''A'', author_email = ''a@example.org'', author_date = ''2024-01-15''\<rparr>,
      changedFiles = files\<rparr>"

definition exampleMember :: "string \<Rightarrow> string \<Rightarrow> WorkspaceMember" where
  "exampleMember n p =
     \<lparr>name = n, path = ''/repo/'' @ p, relativePath = p, version = ''0.0.0'',
      publishable = False, isPrivate = False\<rparr>"

text \<open>
  A repository for the examples: its tag lines, the log it prints for a range, a root
  commit \<^verbatim>\<open>4b825dc\<close>, one changed file per commit, and a parser that reads every message
  as a \<^verbatim>\<open>feat\<close> without notes.
\<close>

definition exampleGit :: "string list \<Rightarrow> (string \<Rightarrow> string list) \<Rightarrow> git" where
  "exampleGit tagLines logOf =
     \<lparr>gitTag = \<lparr>out_lines = tagLines, out_error = None\<rparr>,
      gitRevListRoot = Inr (''4b825dc'' @ [CHR 0x0A]),
      gitLog = (\<lambda>rangeSpec. \<lparr>out_lines = logOf rangeSpec, out_error = None\<rparr>),
      gitDiffTree = (\<lambda>commitHash. \<lparr>out_lines = [''src/x.ts''], out_error = None\<rparr>),
      conventionalCommitsParser =
        (\<lambda>message. Inr \<lparr>p_type = Some ''feat'', p_scope = None, p_subject = Some ''add x'',
                          p_body = None, p_notes = Some []\<rparr>)\<rparr>"

text \<open>The log line of a root commit, in the format \<^verbatim>\<open>%H|%h|%an|%ae|%aI|%s|%b\<close>.\<close>

definition exampleLogLine :: string where
  "exampleLogLine = ''4b825dc0|4b825dc|A|a@example.org|2024-01-15T10:00:00+00:00|feat: add x|''"

text \<open>
  A file system for the examples, holding the same content at every path, with no
  directory matching any pattern.
\<close>

definition exampleEnv :: "json_file \<Rightarrow> workspace_env" where
  "exampleEnv file =
     \<lparr>cwd = ''/repo'',
      gitToplevel = Inr (''/repo'' @ [CHR 0x0A]),
      fileAt = (\<lambda>p. file),
      glob = (\<lambda>pattern. Inr []),
      localeCompare = (\<lambda>a b. 0)\<rparr>"

text \<open>
  A comparison of two names by the codes of their characters, standing for
  \<^verbatim>\<open>localeCompare\<close> on names of lower-case letters.
\<close>

fun compareCodes :: "string \<Rightarrow> string \<Rightarrow> int" where
  "compareCodes [] [] = 0"
| "compareCodes [] (y # ys) = - 1"
| "compareCodes (x # xs) [] = 1"
| "compareCodes (x # xs) (y # ys) =
     (if (of_char x :: nat) < of_char y then - 1
      else if (of_char y :: nat) < of_char x then 1
      else compareCodes xs ys)"

text \<open>
  A repository with two workspace members: the root manifest at \<^verbatim>\<open>/repo/package.json\<close>
  declares the pattern \<^verbatim>\<open>packages/*\<close>, the directories \<^verbatim>\<open>packages/ab\<close> and
  \<^verbatim>\<open>packages/a\<close> match it, in this order, and each holds a manifest with its name. The
  parameter is the text that \<^verbatim>\<open>git rev-parse --show-toplevel\<close> prints.
\<close>

definition exampleManifest :: "string \<Rightarrow> workspaces_field \<Rightarrow> json_file" where
  "exampleManifest n ws =
     Json \<lparr>pj_name = Some n, pj_version = None, pj_publishConfig = False,
           pj_private = False, workspaces = ws\<rparr>"

definition exampleMonorepo :: "string \<Rightarrow> workspace_env" where
  "exampleMonorepo toplevel =
     \<lparr>cwd = ''/repo'',
      gitToplevel = Inr toplevel,
      fileAt = (\<lambda>p. if p = ''/repo/package.json''
                       then exampleManifest ''root'' (WsArray [''packages/*''])
                     else if p = ''/repo/packages/a/package.json''
                       then exampleManifest ''a'' WsAbsent
                     else if p = ''/repo/packages/ab/package.json''
                       then exampleManifest ''ab'' WsAbsent
                     else Missing ''ENOENT''),
      glob = (\<lambda>pattern. if pattern = ''packages/*''
                           then Inr [''packages/ab'', ''packages/a''] else Inr []),
      localeCompare = compareCodes\<rparr>"


section \<open>Theorems\<close>

subsection \<open>Release impact\<close>

text \<open>
  C1. The release impact follows the priority order: a note titled "BREAKING CHANGE"
  gives major whatever the type; otherwise type "feat" gives minor; otherwise type
  "fix" or "perf" gives patch; otherwise every other type, an absent type included,
  gives patch. The function is total and its value is one of the three levels.
\<close>

theorem determineReleaseType_priority:
  "((\<exists>notes. p_notes parsed = Some notes \<and>
        (\<exists>note \<in> set notes. note_title note = ''BREAKING CHANGE''))
      \<longrightarrow> determineReleaseType parsed = Major)
   \<and> (\<not> (\<exists>notes. p_notes parsed = Some notes \<and>
          (\<exists>note \<in> set notes. note_title note = ''BREAKING CHANGE''))
      \<longrightarrow> (p_type parsed = Some ''feat'' \<longrightarrow> determineReleaseType parsed = Minor)
        \<and> (p_type parsed = Some ''fix'' \<or> p_type parsed = Some ''perf''
              \<longrightarrow> determineReleaseType parsed = Patch)
        \<and> (p_type parsed \<noteq> Some ''feat'' \<longrightarrow> determineReleaseType parsed = Patch))
   \<and> determineReleaseType parsed \<in> {Major, Minor, Patch}"
  by (cases "p_notes parsed")
     (auto simp: determineReleaseType_def hasBreakingNote_def list_ex_iff)

theorem determineReleaseType_priority_witness:
  "determineReleaseType
      \<lparr>p_type = Some ''fix'', p_scope = None, p_subject = Some ''x'', p_body = None,
       p_notes = Some [\<lparr>note_title = ''BREAKING CHANGE'', note_text = ''api''\<rparr>]\<rparr> = Major
   \<and> determineReleaseType
      \<lparr>p_type = Some ''feat'', p_scope = None, p_subject = Some ''x'', p_body = None,
       p_notes = Some []\<rparr> = Minor
   \<and> determineReleaseType
      \<lparr>p_type = Some ''perf'', p_scope = None, p_subject = Some ''x'', p_body = None,
       p_notes = None\<rparr> = Patch
   \<and> determineReleaseType
      \<lparr>p_type = None, p_scope = None, p_subject = None, p_body = None,
       p_notes = Some [\<lparr>note_title = ''Closes'', note_text = ''1''\<rparr>]\<rparr> = Patch"
  using
    determineReleaseType_priority [of
      "\<lparr>p_type = Some ''fix'', p_scope = None, p_subject = Some ''x'', p_body = None,
        p_notes = Some [\<lparr>note_title = ''BREAKING CHANGE'', note_text = ''api''\<rparr>]\<rparr>"]
    determineReleaseType_priority [of
      "\<lparr>p_type = Some ''feat'', p_scope = None, p_subject = Some ''x'', p_body = None,
        p_notes = Some []\<rparr>"]
    determineReleaseType_priority [of
      "\<lparr>p_type = Some ''perf'', p_scope = None, p_subject = Some ''x'', p_body = None,
        p_notes = None\<rparr>"]
    determineReleaseType_priority [of
      "\<lparr>p_type = None, p_scope = None, p_subject = None, p_body = None,
        p_notes = Some [\<lparr>note_title = ''Closes'', note_text = ''1''\<rparr>]\<rparr>"]
  by simp

subsection \<open>Tags\<close>

lemma digits_Some_iff:
  "digits s = Some (ds, r) \<longleftrightarrow>
     allDigits ds \<and> s = ds @ r \<and> (case r of [] \<Rightarrow> True | c # _ \<Rightarrow> \<not> isDigit c)"
proof
  assume "digits s = Some (ds, r)"
  then have ds: "ds = takeWhile isDigit s" and r: "r = dropWhile isDigit s" and ne: "ds \<noteq> []"
    by (auto simp: digits_def Let_def split: if_splits)
  have "list_all isDigit ds"
    unfolding ds list_all_iff by (auto dest: set_takeWhileD)
  moreover have "case r of [] \<Rightarrow> True | c # _ \<Rightarrow> \<not> isDigit c"
  proof (cases r)
    case (Cons ch r')
    have "dropWhile isDigit s \<noteq> []" using Cons r by simp
    from hd_dropWhile [OF this] show ?thesis using Cons r by simp
  qed simp
  ultimately show "allDigits ds \<and> s = ds @ r \<and> (case r of [] \<Rightarrow> True | c # _ \<Rightarrow> \<not> isDigit c)"
    using ne ds r by (simp add: allDigits_def)
next
  assume a: "allDigits ds \<and> s = ds @ r \<and> (case r of [] \<Rightarrow> True | c # _ \<Rightarrow> \<not> isDigit c)"
  then have "takeWhile isDigit s = ds" "dropWhile isDigit s = r"
    by (auto simp: allDigits_def list_all_iff takeWhile_append2 dropWhile_append2 split: list.splits)
  with a show "digits s = Some (ds, r)"
    by (simp add: digits_def allDigits_def)
qed

lemma dot_Some_iff: "dot s = Some r \<longleftrightarrow> s = CHR ''.'' # r"
  by (auto simp: dot_def split: list.splits)

lemma prereleaseSuffix_Some_iff:
  "prereleaseSuffix s = Some p \<longleftrightarrow>
     s = (case p of None \<Rightarrow> [] | Some x \<Rightarrow> ''-'' @ x)
     \<and> (case p of None \<Rightarrow> True | Some x \<Rightarrow> x \<noteq> [] \<and> \<not> list_ex isLineTerminator x)"
  by (cases s; cases p) (auto simp: prereleaseSuffix_def)

lemma allDigits_hd: "allDigits ds \<Longrightarrow> \<exists>c r. ds = c # r \<and> isDigit c"
  by (cases ds) (auto simp: allDigits_def)

lemma not_digit: "\<not> isDigit CHR ''v''" "\<not> isDigit CHR ''.''" "\<not> isDigit CHR ''-''"
  by (simp_all add: isDigit_def)

text \<open>The regular expression matches exactly the names of the specified shape.\<close>

lemma versionRegExp_iff:
  "versionRegExp n = Some (a, b, c, p) \<longleftrightarrow> versionName n a b c p"
proof
  assume m: "versionRegExp n = Some (a, b, c, p)"
  define s where "s = (case n of [] \<Rightarrow> [] | ch # r \<Rightarrow> if ch = CHR ''v'' then r else n)"
  from m obtain s1 s2 s3 s4 s5 where
    d1: "digits s = Some (a, s1)" and t1: "dot s1 = Some s2" and
    d2: "digits s2 = Some (b, s3)" and t2: "dot s3 = Some s4" and
    d3: "digits s4 = Some (c, s5)" and pr: "prereleaseSuffix s5 = Some p"
    unfolding versionRegExp_def s_def [symmetric] Let_def
    by (auto split: option.splits prod.splits)
  have s: "s = a @ ''.'' @ b @ ''.'' @ c @ (case p of None \<Rightarrow> [] | Some x \<Rightarrow> ''-'' @ x)"
    using d1 t1 d2 t2 d3 pr
    by (simp add: digits_Some_iff dot_Some_iff prereleaseSuffix_Some_iff)
  have "n = s \<or> n = ''v'' @ s"
    by (cases n) (auto simp: s_def)
  then show "versionName n a b c p"
    using s d1 d2 d3 pr
    by (auto simp: versionName_def digits_Some_iff prereleaseSuffix_Some_iff)
next
  assume v: "versionName n a b c p"
  define sfx where "sfx = (case p of None \<Rightarrow> [] | Some x \<Rightarrow> ''-'' @ x)"
  define s where "s = a @ ''.'' @ b @ ''.'' @ c @ sfx"
  from v have da: "allDigits a" and db: "allDigits b" and dc: "allDigits c"
    and pp: "case p of None \<Rightarrow> True | Some x \<Rightarrow> x \<noteq> [] \<and> \<not> list_ex isLineTerminator x"
    and nm: "n = s \<or> n = ''v'' @ s"
    by (auto simp: versionName_def s_def sfx_def)
  from allDigits_hd [OF da] obtain ch r where a: "a = ch # r" "isDigit ch" by blast
  then have "ch \<noteq> CHR ''v''" using not_digit(1) by auto
  with nm a have strip: "(case n of [] \<Rightarrow> [] | ch # r \<Rightarrow> if ch = CHR ''v'' then r else n) = s"
    by (auto simp: s_def)
  have d1: "digits s = Some (a, ''.'' @ b @ ''.'' @ c @ sfx)"
    using da by (simp add: digits_Some_iff s_def not_digit)
  have d2: "digits (b @ ''.'' @ c @ sfx) = Some (b, ''.'' @ c @ sfx)"
    using db by (simp add: digits_Some_iff not_digit)
  have d3: "digits (c @ sfx) = Some (c, sfx)"
    using dc by (cases p) (simp_all add: digits_Some_iff not_digit sfx_def)
  have pr: "prereleaseSuffix sfx = Some p"
    using pp by (simp add: prereleaseSuffix_Some_iff sfx_def)
  show "versionRegExp n = Some (a, b, c, p)"
    unfolding versionRegExp_def strip Let_def
    using d1 d2 d3 pr by (simp add: dot_def)
qed

lemma splitStr_ne: "splitStr sep s \<noteq> []"
  by (induction s) (auto split: list.splits)

lemma splitStr_notin: "sep \<notin> set a \<Longrightarrow> splitStr sep a = [a]"
  by (induction a) auto

lemma splitStr_append: "sep \<notin> set a \<Longrightarrow> splitStr sep (a @ sep # b) = a # splitStr sep b"
  by (induction a) auto

lemma splitStr_Cons:
  "splitStr sep s = a # ps \<Longrightarrow>
     sep \<notin> set a \<and> (if ps = [] then s = a else \<exists>s'. s = a @ sep # s' \<and> splitStr sep s' = ps)"
proof (induction s arbitrary: a ps)
  case Nil
  then show ?case by simp
next
  case (Cons ch s)
  show ?case
  proof (cases "ch = sep")
    case True
    with Cons.prems show ?thesis by (auto simp: splitStr_ne)
  next
    case False
    obtain piece pieces where sp: "splitStr sep s = piece # pieces"
      using splitStr_ne [of sep s] by (cases "splitStr sep s") auto
    from Cons.IH [OF sp] Cons.prems False sp show ?thesis
      by (auto split: if_splits)
  qed
qed

lemma tagLine_split:
  assumes "tagLine line h d n rest"
  shows "\<exists>extra. splitStr TAB line = h # d # n # extra"
proof (cases rest)
  case Nil
  with assms show ?thesis
    by (simp add: tagLine_def splitStr_append splitStr_notin)
next
  case (Cons ch r)
  with assms have "rest = TAB # r" by (auto simp: tagLine_def)
  with assms show ?thesis
    by (simp add: tagLine_def splitStr_append)
qed

lemma split_tagLine:
  assumes "splitStr TAB line = h # d # n # extra"
  shows "\<exists>rest. tagLine line h d n rest"
proof -
  from splitStr_Cons [OF assms] obtain s1 where
    h: "TAB \<notin> set h" and l1: "line = h @ TAB # s1" and s1: "splitStr TAB s1 = d # n # extra"
    by auto
  from splitStr_Cons [OF s1] obtain s2 where
    d: "TAB \<notin> set d" and l2: "s1 = d @ TAB # s2" and s2: "splitStr TAB s2 = n # extra"
    by auto
  from splitStr_Cons [OF s2] have
    n: "TAB \<notin> set n" and l3: "if extra = [] then s2 = n else \<exists>s3. s2 = n @ TAB # s3"
    by auto
  from l3 obtain rest where "s2 = n @ rest" "rest = [] \<or> hd rest = TAB"
    by (cases "extra = []") auto
  with h d n l1 l2 have "tagLine line h d n rest" by (simp add: tagLine_def)
  then show ?thesis ..
qed

lemma three_elements:
  assumes "element xs 0 = Some h" "element xs 1 = Some d" "element xs 2 = Some n"
  shows "\<exists>extra. xs = h # d # n # extra"
proof -
  from assms(3) have "2 < length xs" by (simp add: element_def split: if_splits)
  then obtain x0 x1 x2 extra where xs: "xs = x0 # x1 # x2 # extra"
    by (cases xs; cases "tl xs"; cases "tl (tl xs)") auto
  with assms show ?thesis by (simp add: element_def)
qed

text \<open>A line is parsed exactly when it is not blank and its first three fields are there.\<close>

lemma parseTagLine_Some_iff:
  "parseTagLine line = Some t \<longleftrightarrow>
     trim line \<noteq> [] \<and>
     (\<exists>h d n rest. tagLine line h d n rest \<and> h \<noteq> [] \<and> d \<noteq> [] \<and> n \<noteq> [] \<and> t = makeTag h d n)"
proof
  assume p: "parseTagLine line = Some t"
  then have tr: "trim line \<noteq> []" by (auto simp: parseTagLine_def split: if_splits)
  from p tr obtain h d n where
    e: "element (splitStr TAB line) 0 = Some h" "element (splitStr TAB line) 1 = Some d"
       "element (splitStr TAB line) 2 = Some n"
    and ne: "h \<noteq> []" "d \<noteq> []" "n \<noteq> []" and t: "t = makeTag h d n"
    by (auto simp: parseTagLine_def Let_def split: option.splits if_splits)
  from three_elements [OF e] obtain extra where "splitStr TAB line = h # d # n # extra" ..
  from split_tagLine [OF this] tr ne t show "trim line \<noteq> [] \<and>
     (\<exists>h d n rest. tagLine line h d n rest \<and> h \<noteq> [] \<and> d \<noteq> [] \<and> n \<noteq> [] \<and> t = makeTag h d n)"
    by blast
next
  assume "trim line \<noteq> [] \<and>
     (\<exists>h d n rest. tagLine line h d n rest \<and> h \<noteq> [] \<and> d \<noteq> [] \<and> n \<noteq> [] \<and> t = makeTag h d n)"
  then obtain h d n rest where tr: "trim line \<noteq> []" and tl: "tagLine line h d n rest"
    and ne: "h \<noteq> []" "d \<noteq> []" "n \<noteq> []" and t: "t = makeTag h d n" by blast
  from tagLine_split [OF tl] obtain extra where "splitStr TAB line = h # d # n # extra" ..
  with tr ne t show "parseTagLine line = Some t"
    by (simp add: parseTagLine_def element_def)
qed

lemma tagLoop_eq: "tagLoop ls acc = acc @ List.map_filter parseTagLine ls"
  by (induction ls arbitrary: acc) (auto simp: List.map_filter_simps split: option.splits)

lemma parseInt_snoc: "parseInt (ds @ [d]) = 10 * parseInt ds + digitValue d"
  by (simp add: parseInt_def)

text \<open>\<open>parseInt\<close> reads a run of digits in base ten.\<close>

lemma parseInt_decimal:
  "parseInt ds = (\<Sum>i<length ds. digitValue (ds ! i) * 10 ^ (length ds - 1 - i))"
proof (induction ds rule: rev_induct)
  case Nil
  show ?case by (simp add: parseInt_def)
next
  case (snoc d ds)
  have "(\<Sum>i<length ds. digitValue ((ds @ [d]) ! i) * 10 ^ (length (ds @ [d]) - 1 - i))
      = (\<Sum>i<length ds. 10 * (digitValue (ds ! i) * 10 ^ (length ds - 1 - i)))"
    by (rule sum.cong)
       (auto simp: nth_append simp flip: power_Suc intro!: arg_cong [where f = "\<lambda>k. 10 ^ k"])
  then show ?case using snoc by (simp add: parseInt_snoc sum_distrib_left)
qed

lemma makeTag_version:
  assumes "versionName n a b c p"
  shows "tag_version (makeTag h d n) =
           Some \<lparr>v_major = parseInt a, v_minor = parseInt b, v_patch = parseInt c,
                 v_prerelease = (case p of None \<Rightarrow> ''none'' | Some x \<Rightarrow> x)\<rparr>"
proof -
  from assms have m: "versionRegExp n = Some (a, b, c, p)"
    by (simp add: versionRegExp_iff)
  from assms have "orElse p ''none'' = (case p of None \<Rightarrow> ''none'' | Some x \<Rightarrow> x)"
    by (cases p) (auto simp: versionName_def orElse_def)
  with m show ?thesis by (simp add: makeTag_def Let_def)
qed

lemma makeTag_isVersionTag:
  "isVersionTag (makeTag h d n) \<longleftrightarrow> (\<exists>a b c p. versionName n a b c p)"
  by (auto simp: makeTag_def Let_def versionRegExp_iff [symmetric])

lemma makeTag_no_version:
  "\<not> isVersionTag (makeTag h d n) \<Longrightarrow> tag_version (makeTag h d n) = None"
  by (cases "versionRegExp n") (auto simp: makeTag_def Let_def)

lemma makeTag_fields:
  "tag_name (makeTag h d n) = n" "tag_hash (makeTag h d n) = h" "tag_date (makeTag h d n) = d"
  by (simp_all add: makeTag_def Let_def)

lemma parseTagLine_example:
  "parseTagLine (''abc1234'' @ [TAB] @ ''2024-01-15T10:00:00+00:00'' @ [TAB] @ ''v2.3.1-beta'') =
     Some \<lparr>tag_name = ''v2.3.1-beta'', tag_hash = ''abc1234'',
           tag_date = ''2024-01-15T10:00:00+00:00'', isVersionTag = True,
           tag_version = Some \<lparr>v_major = 2, v_minor = 3, v_patch = 1, v_prerelease = ''beta''\<rparr>\<rparr>"
  by (simp add: parseTagLine_def makeTag_def TAB_def trim_def isWhiteSpace_def element_def
        versionRegExp_def digits_def dot_def prereleaseSuffix_def isDigit_def
        isLineTerminator_def parseInt_def digitValue_def orElse_def)

lemma parseTagLine_malformed: "parseTagLine (''abc1234'' @ [TAB] @ ''2024-01-15'') = None"
  by (simp add: parseTagLine_def TAB_def trim_def isWhiteSpace_def element_def)

lemma parseTagLine_missing_fields:
  assumes "TAB \<notin> set h" "TAB \<notin> set d"
  shows "parseTagLine h = None" "parseTagLine (h @ [TAB] @ d) = None"
    "parseTagLine (h @ [TAB] @ d @ [TAB]) = None"
  using assms
  by (simp_all add: parseTagLine_def splitStr_notin splitStr_append element_def)

text \<open>
  C6. Without a failure of the listing, \<open>getAllTags\<close> keeps the order of the lines, gives
  at most one tag per line and writes no warning. A line gives a tag exactly when it is
  not blank and its first three tab-separated fields are present and not empty; the tag
  carries the first field as hash, the second as date and the third as name. A line with
  one field, with two, or with an empty third field is dropped. A tag is a version tag
  exactly when its name is an optional \<^verbatim>\<open>v\<close>, three dot-separated runs of digits and
  an optional dash with a non-empty prerelease; its version then holds the three runs
  read in base ten (stated for runs of at most fifteen digits, where the source's
  doubles are exact) and the prerelease text, or \<^verbatim>\<open>none\<close> without one; a tag that is
  not a version tag has no version. The line of the specification's example parses to
  hash abc1234, name v2.3.1-beta, version 2.3.1 with prerelease beta, and its malformed
  line is dropped.
\<close>

theorem getAllTags_parses:
  "getAllTags \<lparr>out_lines = ls, out_error = None\<rparr> = (List.map_filter parseTagLine ls, [])
   \<and> (parseTagLine line = Some t \<longleftrightarrow>
        trim line \<noteq> [] \<and>
        (\<exists>h d n rest. tagLine line h d n rest \<and> h \<noteq> [] \<and> d \<noteq> [] \<and> n \<noteq> [] \<and> t = makeTag h d n))
   \<and> (TAB \<notin> set h \<and> TAB \<notin> set d \<longrightarrow>
        parseTagLine h = None \<and> parseTagLine (h @ [TAB] @ d) = None
        \<and> parseTagLine (h @ [TAB] @ d @ [TAB]) = None)
   \<and> tag_hash (makeTag h d n) = h \<and> tag_date (makeTag h d n) = d \<and> tag_name (makeTag h d n) = n
   \<and> (isVersionTag (makeTag h d n) \<longleftrightarrow> (\<exists>a b c p. versionName n a b c p))
   \<and> (\<not> isVersionTag (makeTag h d n) \<longrightarrow> tag_version (makeTag h d n) = None)
   \<and> (versionName n a b c p \<and> length a \<le> 15 \<and> length b \<le> 15 \<and> length c \<le> 15 \<longrightarrow>
        tag_version (makeTag h d n) =
          Some \<lparr>v_major = parseInt a, v_minor = parseInt b, v_patch = parseInt c,
                v_prerelease = (case p of None \<Rightarrow> ''none'' | Some x \<Rightarrow> x)\<rparr>)
   \<and> parseInt ds = (\<Sum>i<length ds. digitValue (ds ! i) * 10 ^ (length ds - 1 - i))
   \<and> parseTagLine (''abc1234'' @ [TAB] @ ''2024-01-15T10:00:00+00:00'' @ [TAB] @ ''v2.3.1-beta'') =
       Some \<lparr>tag_name = ''v2.3.1-beta'', tag_hash = ''abc1234'',
             tag_date = ''2024-01-15T10:00:00+00:00'', isVersionTag = True,
             tag_version = Some \<lparr>v_major = 2, v_minor = 3, v_patch = 1, v_prerelease = ''beta''\<rparr>\<rparr>
   \<and> parseTagLine (''abc1234'' @ [TAB] @ ''2024-01-15'') = None"
proof -
  have 1: "getAllTags \<lparr>out_lines = ls, out_error = None\<rparr> = (List.map_filter parseTagLine ls, [])"
    by (simp add: getAllTags_def tagLoop_eq)
  show ?thesis
    using 1 parseTagLine_Some_iff [of line t] parseTagLine_missing_fields [of h d] makeTag_fields [of h d n]
      makeTag_isVersionTag [of h d n] makeTag_no_version [of h d n]
      makeTag_version [of n a b c p h d] parseInt_decimal [of ds] parseTagLine_example parseTagLine_malformed
    by blast
qed

theorem getAllTags_parses_witness:
  "getAllTags \<lparr>out_lines = [''abc1234'' @ [TAB] @ ''2024-01-15'',
                            ''abc1234'' @ [TAB] @ ''2024-01-15T10:00:00+00:00'' @ [TAB] @ ''v2.3.1-beta''],
               out_error = None\<rparr> =
     ([\<lparr>tag_name = ''v2.3.1-beta'', tag_hash = ''abc1234'',
        tag_date = ''2024-01-15T10:00:00+00:00'', isVersionTag = True,
        tag_version = Some \<lparr>v_major = 2, v_minor = 3, v_patch = 1, v_prerelease = ''beta''\<rparr>\<rparr>], [])
   \<and> TAB \<notin> set ''abc1234'' \<and> TAB \<notin> set ''2024-01-15''
   \<and> parseTagLine ''abc1234'' = None
   \<and> versionName ''v2.3.1-beta'' ''2'' ''3'' ''1'' (Some ''beta'')
   \<and> tag_version (makeTag ''abc1234'' ''2024-01-15T10:00:00+00:00'' ''v2.3.1-beta'') =
       Some \<lparr>v_major = 2, v_minor = 3, v_patch = 1, v_prerelease = ''beta''\<rparr>
   \<and> \<not> isVersionTag (makeTag ''abc1234'' ''2024-01-15'' ''latest'')
   \<and> tag_version (makeTag ''abc1234'' ''2024-01-15'' ''latest'') = None"
proof -
  let ?bad = "''abc1234'' @ [TAB] @ ''2024-01-15''"
  let ?good = "''abc1234'' @ [TAB] @ ''2024-01-15T10:00:00+00:00'' @ [TAB] @ ''v2.3.1-beta''"
  note T = getAllTags_parses [of "[?bad, ?good]" ?good _ "''abc1234''" "''2024-01-15''" "''v2.3.1-beta''"
      "''2''" "''3''" "''1''" "Some ''beta''" "''231''"]
  note U = getAllTags_parses [of "[]" "[]" _ "''abc1234''" "''2024-01-15T10:00:00+00:00''" "''v2.3.1-beta''"
      "''2''" "''3''" "''1''" "Some ''beta''" "''231''"]
  note V = getAllTags_parses [of "[]" "[]" _ "''abc1234''" "''2024-01-15''" "''latest''"
      "''2''" "''3''" "''1''" "Some ''beta''" "''231''"]
  have tabs: "TAB \<notin> set ''abc1234''" "TAB \<notin> set ''2024-01-15''"
    by (simp_all add: TAB_def)
  have vn: "versionName ''v2.3.1-beta'' ''2'' ''3'' ''1'' (Some ''beta'')"
    by (simp add: versionName_def allDigits_def isDigit_def isLineTerminator_def)
  have nv: "\<not> isVersionTag (makeTag ''abc1234'' ''2024-01-15'' ''latest'')"
    by (simp add: makeTag_def versionRegExp_def digits_def isDigit_def)
  have pi: "parseInt ''2'' = 2" "parseInt ''3'' = 3" "parseInt ''1'' = 1"
    by (simp_all add: parseInt_def digitValue_def)
  from T have "getAllTags \<lparr>out_lines = [?bad, ?good], out_error = None\<rparr>
      = (List.map_filter parseTagLine [?bad, ?good], [])" by blast
  moreover from T have "parseTagLine ?bad = None" "parseTagLine ?good = Some \<lparr>tag_name = ''v2.3.1-beta'', tag_hash = ''abc1234'',
        tag_date = ''2024-01-15T10:00:00+00:00'', isVersionTag = True,
        tag_version = Some \<lparr>v_major = 2, v_minor = 3, v_patch = 1, v_prerelease = ''beta''\<rparr>\<rparr>"
    by blast+
  ultimately have g: "getAllTags \<lparr>out_lines = [?bad, ?good], out_error = None\<rparr> =
     ([\<lparr>tag_name = ''v2.3.1-beta'', tag_hash = ''abc1234'',
        tag_date = ''2024-01-15T10:00:00+00:00'', isVersionTag = True,
        tag_version = Some \<lparr>v_major = 2, v_minor = 3, v_patch = 1, v_prerelease = ''beta''\<rparr>\<rparr>], [])"
    by (simp add: List.map_filter_simps)
  from T tabs have m: "parseTagLine ''abc1234'' = None" by blast
  from U vn have "tag_version (makeTag ''abc1234'' ''2024-01-15T10:00:00+00:00'' ''v2.3.1-beta'') =
       Some \<lparr>v_major = parseInt ''2'', v_minor = parseInt ''3'', v_patch = parseInt ''1'',
                v_prerelease = (case Some ''beta'' of None \<Rightarrow> ''none'' | Some x \<Rightarrow> x)\<rparr>"
    by simp
  then have tv: "tag_version (makeTag ''abc1234'' ''2024-01-15T10:00:00+00:00'' ''v2.3.1-beta'') =
       Some \<lparr>v_major = 2, v_minor = 3, v_patch = 1, v_prerelease = ''beta''\<rparr>"
    by (simp add: pi)
  from V nv have "tag_version (makeTag ''abc1234'' ''2024-01-15'' ''latest'') = None" by blast
  with g tabs m vn tv nv show ?thesis by blast
qed

text \<open>
  C10. When the tag listing fails, \<open>getAllTags\<close> returns the empty list with one
  warning, whatever lines were read before the failure; \<open>getLatestVersionTag\<close> returns
  none, as it does on an empty listing; and \<open>getCommitsInRange\<close> behaves as on a
  repository whose listing is empty: without a \<^verbatim>\<open>fromRef\<close> its starting point is the
  root commit.
\<close>

theorem getAllTags_failure:
  "getAllTags \<lparr>out_lines = ls, out_error = Some e\<rparr> = ([], [''Warning: Could not retrieve git tags: '' @ e])
   \<and> getLatestVersionTag \<lparr>out_lines = ls, out_error = Some e\<rparr> = None
   \<and> getLatestVersionTag \<lparr>out_lines = [], out_error = None\<rparr> = None
   \<and> startRefOf (g\<lparr>gitTag := \<lparr>out_lines = ls, out_error = Some e\<rparr>\<rparr>) None =
       (case gitRevListRoot g of Inl error \<Rightarrow> Inl error | Inr rootCommit \<Rightarrow> Inr (trim rootCommit))
   \<and> getCommitsInRange (g\<lparr>gitTag := \<lparr>out_lines = ls, out_error = Some e\<rparr>\<rparr>) fromRef toRef =
       getCommitsInRange (g\<lparr>gitTag := \<lparr>out_lines = [], out_error = None\<rparr>\<rparr>) fromRef toRef"
proof -
  have a: "getAllTags \<lparr>out_lines = ls, out_error = Some e\<rparr> = ([], [''Warning: Could not retrieve git tags: '' @ e])"
    by (simp add: getAllTags_def)
  have b: "getLatestVersionTag \<lparr>out_lines = ls, out_error = Some e\<rparr> = None"
    "getLatestVersionTag \<lparr>out_lines = [], out_error = None\<rparr> = None"
    by (simp_all add: getLatestVersionTag_def getAllTags_def)
  have l: "latestTagOrRoot (g\<lparr>gitTag := \<lparr>out_lines = ls, out_error = Some e\<rparr>\<rparr>) =
           latestTagOrRoot (g\<lparr>gitTag := \<lparr>out_lines = [], out_error = None\<rparr>\<rparr>)"
    by (simp add: latestTagOrRoot_def b)
  have s: "startRefOf (g\<lparr>gitTag := \<lparr>out_lines = ls, out_error = Some e\<rparr>\<rparr>) r =
           startRefOf (g\<lparr>gitTag := \<lparr>out_lines = [], out_error = None\<rparr>\<rparr>) r" for r
    by (simp add: startRefOf_def l split: option.splits)
  have al: "assembleCommit (g\<lparr>gitTag := x\<rparr>) block = assembleCommit g block" for x block
    by (simp add: assembleCommit_def Let_def cong: sum.case_cong)
  have cl: "commitLoop (g\<lparr>gitTag := x\<rparr>) blocks acc = commitLoop g blocks acc" for x blocks acc
    by (induction blocks arbitrary: acc) (simp_all add: al cong: sum.case_cong option.case_cong)
  have c: "commitsInRangeBody (g\<lparr>gitTag := \<lparr>out_lines = ls, out_error = Some e\<rparr>\<rparr>) r t =
           commitsInRangeBody (g\<lparr>gitTag := \<lparr>out_lines = [], out_error = None\<rparr>\<rparr>) r t" for r t
    by (simp add: commitsInRangeBody_def s cl Let_def cong: sum.case_cong option.case_cong if_cong)
  have d: "startRefOf (g\<lparr>gitTag := \<lparr>out_lines = ls, out_error = Some e\<rparr>\<rparr>) None =
       (case gitRevListRoot g of Inl error \<Rightarrow> Inl error | Inr rootCommit \<Rightarrow> Inr (trim rootCommit))"
    by (simp add: startRefOf_def latestTagOrRoot_def b)
  show ?thesis using a b d by (simp add: getCommitsInRange_def c)
qed

subsection \<open>Package impact\<close>

lemma set_setAdd: "set (setAdd x s) = insert x (set s)"
  by (auto simp: setAdd_def)

lemma distinct_setAdd: "distinct s \<Longrightarrow> distinct (setAdd x s)"
  by (auto simp: setAdd_def)

lemma inner_fold:
  "set (foldl (\<lambda>affected pkg. if P pkg then setAdd (name pkg) affected else affected) acc pkgs)
     = set acc \<union> {name pkg | pkg. pkg \<in> set pkgs \<and> P pkg}"
  "distinct acc \<Longrightarrow>
     distinct (foldl (\<lambda>affected pkg. if P pkg then setAdd (name pkg) affected else affected) acc pkgs)"
  by (induction pkgs arbitrary: acc) (auto simp: set_setAdd distinct_setAdd)

lemma outer_fold:
  "set (foldl (\<lambda>affected changedFile.
              foldl (\<lambda>affected pkg.
                       if isFileInPackage changedFile (relativePath pkg)
                       then setAdd (name pkg) affected else affected)
                    affected pkgs) acc files)
     = set acc \<union> {name pkg | pkg f. pkg \<in> set pkgs \<and> f \<in> set files \<and> isFileInPackage f (relativePath pkg)}"
  "distinct acc \<Longrightarrow>
     distinct (foldl (\<lambda>affected changedFile.
              foldl (\<lambda>affected pkg.
                       if isFileInPackage changedFile (relativePath pkg)
                       then setAdd (name pkg) affected else affected)
                    affected pkgs) acc files)"
  by (induction files arbitrary: acc) (auto simp: inner_fold)

lemma set_affectedPackages:
  "set (affectedPackages c pkgs) = {k. attributed pkgs c k}"
  by (auto simp: affectedPackages_def outer_fold attributed_def list_ex_iff)

lemma distinct_affectedPackages: "distinct (affectedPackages c pkgs)"
  by (simp add: affectedPackages_def outer_fold)

lemma keys_mapSet_in: "k \<in> fst ` set m \<Longrightarrow> map fst (mapSet k v m) = map fst m"
proof (induction m)
  case Nil
  then show ?case by simp
next
  case (Cons x m)
  show ?case
  proof (cases "fst x = k")
    case True
    then show ?thesis by (cases x) simp
  next
    case False
    with Cons.prems have "k \<in> fst ` set m" by auto
    with Cons.IH False show ?thesis by (cases x) simp
  qed
qed

lemma keys_mapSet_notin: "k \<notin> fst ` set m \<Longrightarrow> map fst (mapSet k v m) = map fst m @ [k]"
  by (induction m) auto

lemma keys_mapSet:
  "map fst (mapSet k v m) = (if k \<in> fst ` set m then map fst m else map fst m @ [k])"
  by (simp add: keys_mapSet_in keys_mapSet_notin)

lemma mapGet_mapSet: "mapGet k' (mapSet k v m) = (if k' = k then Some v else mapGet k' m)"
  by (induction m) (auto simp: mapGet_def)

lemma mapGet_None: "mapGet k m = None \<longleftrightarrow> k \<notin> fst ` set m"
  by (simp add: mapGet_def map_of_eq_None_iff)

lemma keys_updatePackage: "map fst (updatePackage c m k) = map fst m"
proof (cases "mapGet k m")
  case None
  then show ?thesis by (simp add: updatePackage_def)
next
  case (Some pc)
  then have "k \<in> fst ` set m" using mapGet_None [of k m] by auto
  with Some show ?thesis by (simp add: updatePackage_def keys_mapSet)
qed

lemma mapGet_updatePackage:
  "mapGet k' (updatePackage c m k) =
     (if k' = k then map_option (recordCommit c) (mapGet k m) else mapGet k' m)"
  by (cases "mapGet k m") (auto simp: updatePackage_def mapGet_mapSet)

lemma mapGet_foldl_updatePackage:
  "distinct ks \<Longrightarrow>
   mapGet k (foldl (updatePackage c) m ks) =
     (if k \<in> set ks then map_option (recordCommit c) (mapGet k m) else mapGet k m)"
proof (induction ks arbitrary: m)
  case Nil
  then show ?case by simp
next
  case (Cons x ks)
  then show ?case by (auto simp: mapGet_updatePackage)
qed

lemma keys_foldl_updatePackage: "map fst (foldl (updatePackage c) m ks) = map fst m"
  by (induction ks arbitrary: m) (simp_all add: keys_updatePackage)

lemma mapGet_processCommit:
  "mapGet k (processCommit pkgs m c) =
     (if attributed pkgs c k then map_option (recordCommit c) (mapGet k m) else mapGet k m)"
  using set_affectedPackages [of c pkgs]
  by (simp add: processCommit_def mapGet_foldl_updatePackage distinct_affectedPackages)

lemma keys_processCommit: "map fst (processCommit pkgs m c) = map fst m"
  by (simp add: processCommit_def keys_foldl_updatePackage)

lemma mapGet_commits:
  "mapGet k (foldl (processCommit pkgs) m cs) = map_option (\<lambda>pc. foldRecord pkgs k pc cs) (mapGet k m)"
proof (induction cs arbitrary: m)
  case Nil
  then show ?case by (simp add: foldRecord_def option.map_ident)
next
  case (Cons c cs)
  show ?case
    by (cases "mapGet k m") (simp_all add: Cons.IH mapGet_processCommit foldRecord_def)
qed

lemma keys_commits: "map fst (foldl (processCommit pkgs) m cs) = map fst m"
  by (induction cs arbitrary: m) (simp_all add: keys_processCommit)

lemma foldRecord_commits:
  "affectingCommits (foldRecord pkgs k pc cs) = affectingCommits pc @ filter (\<lambda>c. attributed pkgs c k) cs"
  unfolding foldRecord_def
  by (induction cs arbitrary: pc) (simp_all add: recordCommit_def)

lemma foldRecord_name: "packageName (foldRecord pkgs k pc cs) = packageName pc"
  unfolding foldRecord_def
  by (induction cs arbitrary: pc) (simp_all add: recordCommit_def)

lemma severity_recordCommit:
  "severity (suggestedReleaseType (recordCommit c pc)) =
     max (severity (suggestedReleaseType pc)) (severity (releaseType c))"
  by (cases "releaseType c"; cases "suggestedReleaseType pc") (simp_all add: recordCommit_def)

lemma foldRecord_severity:
  "severity (suggestedReleaseType (foldRecord pkgs k pc cs)) =
     Max (insert (severity (suggestedReleaseType pc))
            (severity ` releaseType ` set (filter (\<lambda>c. attributed pkgs c k) cs)))"
  unfolding foldRecord_def
proof (induction cs arbitrary: pc)
  case Nil
  then show ?case by simp
next
  case (Cons c cs)
  show ?case
  proof (cases "attributed pkgs c k")
    case True
    let ?S = "severity ` releaseType ` set (filter (\<lambda>c. attributed pkgs c k) cs)"
    have fin: "finite ?S" by simp
    have "Max (insert (max (severity (suggestedReleaseType pc)) (severity (releaseType c))) ?S)
        = Max (insert (severity (suggestedReleaseType pc)) (insert (severity (releaseType c)) ?S))"
      using fin by (cases "?S = {}") (simp_all add: max.assoc)
    with True show ?thesis by (simp add: Cons.IH severity_recordCommit insert_commute)
  next
    case False
    then show ?thesis by (simp add: Cons.IH)
  qed
qed

lemma initialMap_acc:
  "mapGet k (foldl (\<lambda>m pkg. mapSet (name pkg) (initialPackageChange pkg) m) m0 pkgs) = Some pc \<Longrightarrow>
     mapGet k m0 = Some pc \<or> (\<exists>pkg \<in> set pkgs. name pkg = k \<and> pc = initialPackageChange pkg)"
proof (induction pkgs arbitrary: m0)
  case Nil
  then show ?case by simp
next
  case (Cons pkg pkgs)
  from Cons.prems have
    "mapGet k (foldl (\<lambda>m pkg. mapSet (name pkg) (initialPackageChange pkg) m)
        (mapSet (name pkg) (initialPackageChange pkg) m0) pkgs) = Some pc"
    by simp
  from Cons.IH [OF this] show ?case
    by (auto simp: mapGet_mapSet split: if_splits)
qed

lemma keyset_mapSet: "fst ` set (mapSet k v m) = insert k (fst ` set m)"
proof -
  have "set (map fst (mapSet k v m)) = insert k (set (map fst m))"
    unfolding keys_mapSet by auto
  then show ?thesis by simp
qed

lemma initialMap_keys_acc:
  "fst ` set (foldl (\<lambda>m pkg. mapSet (name pkg) (initialPackageChange pkg) m) m0 pkgs)
     = fst ` set m0 \<union> name ` set pkgs"
proof (induction pkgs arbitrary: m0)
  case Nil
  then show ?case by simp
next
  case (Cons pkg pkgs)
  have "fst ` set (foldl (\<lambda>m pkg. mapSet (name pkg) (initialPackageChange pkg) m) m0 (pkg # pkgs))
      = fst ` set (mapSet (name pkg) (initialPackageChange pkg) m0) \<union> name ` set pkgs"
    using Cons.IH [of "mapSet (name pkg) (initialPackageChange pkg) m0"] by simp
  also have "\<dots> = fst ` set m0 \<union> name ` set (pkg # pkgs)"
    unfolding keyset_mapSet by auto
  finally show ?case .
qed

lemma initialMap_distinct_acc:
  "distinct (map fst m0) \<Longrightarrow>
     distinct (map fst (foldl (\<lambda>m pkg. mapSet (name pkg) (initialPackageChange pkg) m) m0 pkgs))"
proof (induction pkgs arbitrary: m0)
  case Nil
  then show ?case by simp
next
  case (Cons pkg pkgs)
  have "distinct (map fst (mapSet (name pkg) (initialPackageChange pkg) m0))"
    using Cons.prems by (simp add: keys_mapSet)
  from Cons.IH [OF this] show ?case by simp
qed

lemma initialMap_get:
  "mapGet k (initialMap pkgs) = Some pc \<Longrightarrow> \<exists>pkg \<in> set pkgs. name pkg = k \<and> pc = initialPackageChange pkg"
  using initialMap_acc [of k "[]" pkgs pc] by (simp add: initialMap_def mapGet_def)

lemma initialMap_keys: "fst ` set (initialMap pkgs) = name ` set pkgs"
  using initialMap_keys_acc [of "[]" pkgs] by (simp add: initialMap_def)

lemma initialMap_distinct: "distinct (map fst (initialMap pkgs))"
  using initialMap_distinct_acc [of "[]" pkgs] by (simp add: initialMap_def)

lemma analyze_set:
  "set (analyzePackageChanges cs pkgs) = {pc. \<exists>k. (k, pc) \<in> set (packageChangesMap cs pkgs) \<and> affectingCommits pc \<noteq> []}"
proof -
  have "snd ` set m = {pc. \<exists>k. (k, pc) \<in> set m}" for m :: "(string \<times> PackageChanges) list"
    by force
  then show ?thesis
    by (simp add: analyzePackageChanges_def mapValues_def packageChangesMap_def)
qed

lemma initial_fields:
  "affectingCommits (initialPackageChange pkg) = []"
  "packageName (initialPackageChange pkg) = name pkg"
  "suggestedReleaseType (initialPackageChange pkg) = Patch"
  by (simp_all add: initialPackageChange_def)

lemma packageChangesMap_distinct: "distinct (map fst (packageChangesMap cs pkgs))"
  by (simp add: packageChangesMap_def keys_commits initialMap_distinct)

lemma packageChangesMap_mapGet: "(k, pc) \<in> set (packageChangesMap cs pkgs) \<longleftrightarrow> mapGet k (packageChangesMap cs pkgs) = Some pc"
  using packageChangesMap_distinct [of cs pkgs] by (auto simp: mapGet_def dest: map_of_SomeD)

lemma mapGet_packageChangesMap:
  "mapGet k (packageChangesMap cs pkgs) = map_option (\<lambda>pc. foldRecord pkgs k pc cs) (mapGet k (initialMap pkgs))"
  by (simp add: packageChangesMap_def mapGet_commits)

lemma analyze_member:
  assumes "pc \<in> set (analyzePackageChanges cs pkgs)"
  shows "\<exists>pkg \<in> set pkgs. mapGet (name pkg) (initialMap pkgs) = Some (initialPackageChange pkg)
           \<and> pc = foldRecord pkgs (name pkg) (initialPackageChange pkg) cs
           \<and> packageName pc = name pkg \<and> affectingCommits pc \<noteq> []"
proof -
  from assms obtain k where k: "(k, pc) \<in> set (packageChangesMap cs pkgs)" and ne: "affectingCommits pc \<noteq> []"
    by (auto simp: analyze_set)
  then obtain pc0 where pc0: "mapGet k (initialMap pkgs) = Some pc0" and pc: "pc = foldRecord pkgs k pc0 cs"
    by (auto simp: packageChangesMap_mapGet mapGet_packageChangesMap)
  from initialMap_get [OF pc0] obtain pkg where "pkg \<in> set pkgs" "name pkg = k" "pc0 = initialPackageChange pkg"
    by blast
  with pc0 pc ne show ?thesis
    by (auto simp: foldRecord_name initial_fields)
qed

lemma analyze_commits:
  assumes "pc \<in> set (analyzePackageChanges cs pkgs)"
  shows "affectingCommits pc = filter (\<lambda>c. attributed pkgs c (packageName pc)) cs"
  using analyze_member [OF assms] by (auto simp: foldRecord_commits initial_fields)

lemma analyze_severity:
  assumes "pc \<in> set (analyzePackageChanges cs pkgs)"
  shows "severity (suggestedReleaseType pc) = Max (severity ` releaseType ` set (affectingCommits pc))"
proof -
  from analyze_member [OF assms] obtain pkg where
    pc: "pc = foldRecord pkgs (name pkg) (initialPackageChange pkg) cs" and ne: "affectingCommits pc \<noteq> []"
    by blast
  let ?S = "severity ` releaseType ` set (filter (\<lambda>c. attributed pkgs c (name pkg)) cs)"
  have ac: "affectingCommits pc = filter (\<lambda>c. attributed pkgs c (name pkg)) cs"
    by (simp add: pc foldRecord_commits initial_fields)
  with ne have "?S \<noteq> {}" "finite ?S" by (auto simp: filter_empty_conv)
  then have "Max (insert 0 ?S) = Max ?S" by (simp add: max_def)
  then show ?thesis
    unfolding ac by (simp add: pc foldRecord_severity initial_fields)
qed

lemma analyze_grows:
  assumes "pc \<in> set (analyzePackageChanges cs pkgs)"
  shows "\<exists>pc' \<in> set (analyzePackageChanges (cs @ [c]) pkgs).
           packageName pc' = packageName pc
           \<and> severity (suggestedReleaseType pc) \<le> severity (suggestedReleaseType pc')"
proof -
  from analyze_member [OF assms] obtain pkg where
    pkg: "mapGet (name pkg) (initialMap pkgs) = Some (initialPackageChange pkg)" and
    pc: "pc = foldRecord pkgs (name pkg) (initialPackageChange pkg) cs" and ne: "affectingCommits pc \<noteq> []"
    by blast
  define pc' where "pc' = foldRecord pkgs (name pkg) (initialPackageChange pkg) (cs @ [c])"
  have step: "pc' = (if attributed pkgs c (name pkg) then recordCommit c pc else pc)"
    by (simp add: pc'_def pc foldRecord_def)
  have "mapGet (name pkg) (packageChangesMap (cs @ [c]) pkgs) = Some pc'"
    by (simp add: mapGet_packageChangesMap pkg pc'_def)
  moreover have "affectingCommits pc' \<noteq> []"
    using ne by (simp add: step recordCommit_def)
  ultimately have "pc' \<in> set (analyzePackageChanges (cs @ [c]) pkgs)"
    by (auto simp: analyze_set packageChangesMap_mapGet)
  moreover have "packageName pc' = packageName pc"
    by (simp add: step recordCommit_def)
  moreover have "severity (suggestedReleaseType pc) \<le> severity (suggestedReleaseType pc')"
    by (simp add: step severity_recordCommit)
  ultimately show ?thesis by blast
qed

lemma analyze_reported:
  assumes "pkg \<in> set pkgs"
  shows "(\<exists>pc \<in> set (analyzePackageChanges cs pkgs). packageName pc = name pkg)
          \<longleftrightarrow> (\<exists>c \<in> set cs. attributed pkgs c (name pkg))"
proof
  assume "\<exists>pc \<in> set (analyzePackageChanges cs pkgs). packageName pc = name pkg"
  then obtain pc where pc: "pc \<in> set (analyzePackageChanges cs pkgs)" "packageName pc = name pkg"
    by blast
  from analyze_member [OF pc(1)] have "affectingCommits pc \<noteq> []" by blast
  with analyze_commits [OF pc(1)] pc(2) have "filter (\<lambda>c. attributed pkgs c (name pkg)) cs \<noteq> []"
    by simp
  then show "\<exists>c \<in> set cs. attributed pkgs c (name pkg)"
    by (auto simp: filter_empty_conv)
next
  assume a: "\<exists>c \<in> set cs. attributed pkgs c (name pkg)"
  from assms have "name pkg \<in> fst ` set (initialMap pkgs)" by (simp add: initialMap_keys)
  then obtain pc0 where pc0: "mapGet (name pkg) (initialMap pkgs) = Some pc0"
    using mapGet_None [of "name pkg" "initialMap pkgs"] by auto
  from initialMap_get [OF pc0] obtain pkg' where
    p': "name pkg' = name pkg" "pc0 = initialPackageChange pkg'" by blast
  define pc where "pc = foldRecord pkgs (name pkg) pc0 cs"
  have "mapGet (name pkg) (packageChangesMap cs pkgs) = Some pc"
    by (simp add: mapGet_packageChangesMap pc0 pc_def)
  moreover have "affectingCommits pc \<noteq> []"
    using a by (auto simp: pc_def foldRecord_commits p' initial_fields filter_empty_conv)
  ultimately have "pc \<in> set (analyzePackageChanges cs pkgs)"
    by (auto simp: analyze_set packageChangesMap_mapGet)
  moreover have "packageName pc = name pkg"
    by (simp add: pc_def foldRecord_name p' initial_fields)
  ultimately show "\<exists>pc \<in> set (analyzePackageChanges cs pkgs). packageName pc = name pkg"
    by blast
qed

lemma count_list_filter: "count_list (filter P xs) c \<le> count_list xs c"
  by (induction xs) auto

lemma processCommit_step:
  assumes "mapGet k m = Some pc"
  shows "\<exists>pc'. mapGet k (processCommit pkgs m c) = Some pc'
           \<and> (affectingCommits pc' = affectingCommits pc \<or> affectingCommits pc' = affectingCommits pc @ [c])"
  using assms by (simp add: mapGet_processCommit recordCommit_def)


lemma example_analysis:
  "analyzePackageChanges
    [exampleCommit ''c1'' Minor [''packages/a/index.ts'', ''packages/b/test.ts''],
     exampleCommit ''c2'' Major [''packages/a/x.ts'', ''packages/a/index.ts''],
     exampleCommit ''c3'' Patch [''README.md'']]
    [exampleMember ''a'' ''packages/a'', exampleMember ''b'' ''packages/b'',
     exampleMember ''c'' ''packages/c'']
  = [\<lparr>packageName = ''a'', packagePath = ''packages/a'',
      affectingCommits =
        [exampleCommit ''c1'' Minor [''packages/a/index.ts'', ''packages/b/test.ts''],
         exampleCommit ''c2'' Major [''packages/a/x.ts'', ''packages/a/index.ts'']],
      suggestedReleaseType = Major\<rparr>,
     \<lparr>packageName = ''b'', packagePath = ''packages/b'',
      affectingCommits =
        [exampleCommit ''c1'' Minor [''packages/a/index.ts'', ''packages/b/test.ts'']],
      suggestedReleaseType = Minor\<rparr>]"
  by (simp add: analyzePackageChanges_def packageChangesMap_def initialMap_def
       initialPackageChange_def processCommit_def affectedPackages_def setAdd_def
       updatePackage_def mapGet_def mapValues_def recordCommit_def exampleCommit_def
       exampleMember_def isFileInPackage_def normalize_def path_sep_def startsWith_def)

text \<open>
  C4. Every record that \<open>analyzePackageChanges\<close> returns has at least one attributed
  commit, and its suggested release type is the maximum, in the order
  \<open>patch < minor < major\<close>, of the release types of its attributed commits. Processing
  one more commit never lowers a record: the record of the same package is still
  returned, with a release type at least as severe, and recording a commit in a record
  gives the maximum of the two levels. A workspace package is reported exactly when some
  commit is attributed to its name, so a package with no attributed commit is dropped.
\<close>

theorem analyzePackageChanges_max:
  "(\<forall>pc \<in> set (analyzePackageChanges commits pkgs).
       affectingCommits pc \<noteq> []
       \<and> severity (suggestedReleaseType pc) =
           Max (severity ` releaseType ` set (affectingCommits pc)))
   \<and> (\<forall>pc \<in> set (analyzePackageChanges commits pkgs).
         \<exists>pc' \<in> set (analyzePackageChanges (commits @ [c]) pkgs).
           packageName pc' = packageName pc
           \<and> severity (suggestedReleaseType pc) \<le> severity (suggestedReleaseType pc'))
   \<and> severity (suggestedReleaseType (recordCommit c pc0)) =
        max (severity (suggestedReleaseType pc0)) (severity (releaseType c))
   \<and> (\<forall>pkg \<in> set pkgs.
         (\<exists>pc \<in> set (analyzePackageChanges commits pkgs). packageName pc = name pkg)
         \<longleftrightarrow> (\<exists>c \<in> set commits. attributed pkgs c (name pkg)))"
proof (intro conjI ballI)
  fix pc assume pc: "pc \<in> set (analyzePackageChanges commits pkgs)"
  from analyze_member [OF pc] show "affectingCommits pc \<noteq> []" by blast
  from analyze_severity [OF pc]
  show "severity (suggestedReleaseType pc) = Max (severity ` releaseType ` set (affectingCommits pc))" .
  from analyze_grows [OF pc]
  show "\<exists>pc' \<in> set (analyzePackageChanges (commits @ [c]) pkgs).
           packageName pc' = packageName pc
           \<and> severity (suggestedReleaseType pc) \<le> severity (suggestedReleaseType pc')" .
next
  show "severity (suggestedReleaseType (recordCommit c pc0)) =
        max (severity (suggestedReleaseType pc0)) (severity (releaseType c))"
    by (rule severity_recordCommit)
next
  fix pkg assume "pkg \<in> set pkgs"
  from analyze_reported [OF this]
  show "(\<exists>pc \<in> set (analyzePackageChanges commits pkgs). packageName pc = name pkg)
         \<longleftrightarrow> (\<exists>c \<in> set commits. attributed pkgs c (name pkg))" .
qed

theorem analyzePackageChanges_max_witness:
  "analyzePackageChanges
    [exampleCommit ''c1'' Minor [''packages/a/index.ts'', ''packages/b/test.ts''],
     exampleCommit ''c2'' Major [''packages/a/x.ts'', ''packages/a/index.ts''],
     exampleCommit ''c3'' Patch [''README.md'']]
    [exampleMember ''a'' ''packages/a'', exampleMember ''b'' ''packages/b'',
     exampleMember ''c'' ''packages/c'']
  = [\<lparr>packageName = ''a'', packagePath = ''packages/a'',
      affectingCommits =
        [exampleCommit ''c1'' Minor [''packages/a/index.ts'', ''packages/b/test.ts''],
         exampleCommit ''c2'' Major [''packages/a/x.ts'', ''packages/a/index.ts'']],
      suggestedReleaseType = Major\<rparr>,
     \<lparr>packageName = ''b'', packagePath = ''packages/b'',
      affectingCommits =
        [exampleCommit ''c1'' Minor [''packages/a/index.ts'', ''packages/b/test.ts'']],
      suggestedReleaseType = Minor\<rparr>]
   \<and> severity Major =
       Max (severity ` releaseType `
             set [exampleCommit ''c1'' Minor [''packages/a/index.ts'', ''packages/b/test.ts''],
                  exampleCommit ''c2'' Major [''packages/a/x.ts'', ''packages/a/index.ts'']])
   \<and> severity Minor =
       Max (severity ` releaseType `
             set [exampleCommit ''c1'' Minor [''packages/a/index.ts'', ''packages/b/test.ts'']])
   \<and> \<not> (\<exists>c \<in> set [exampleCommit ''c1'' Minor [''packages/a/index.ts'', ''packages/b/test.ts''],
                       exampleCommit ''c2'' Major [''packages/a/x.ts'', ''packages/a/index.ts''],
                       exampleCommit ''c3'' Patch [''README.md'']].
           attributed [exampleMember ''a'' ''packages/a'', exampleMember ''b'' ''packages/b'',
                       exampleMember ''c'' ''packages/c''] c ''c'')"
proof -
  let ?c1 = "exampleCommit ''c1'' Minor [''packages/a/index.ts'', ''packages/b/test.ts'']"
  let ?c2 = "exampleCommit ''c2'' Major [''packages/a/x.ts'', ''packages/a/index.ts'']"
  let ?c3 = "exampleCommit ''c3'' Patch [''README.md'']"
  let ?pkgs = "[exampleMember ''a'' ''packages/a'', exampleMember ''b'' ''packages/b'',
                exampleMember ''c'' ''packages/c'']"
  note T = analyzePackageChanges_max [of "[?c1, ?c2, ?c3]" ?pkgs ?c3]
  note E = example_analysis
  from T have 1: "\<forall>pc \<in> set (analyzePackageChanges [?c1, ?c2, ?c3] ?pkgs).
       severity (suggestedReleaseType pc) = Max (severity ` releaseType ` set (affectingCommits pc))"
    by blast
  have a: "severity Major = Max (severity ` releaseType ` set [?c1, ?c2])"
    and b: "severity Minor = Max (severity ` releaseType ` set [?c1])"
    using 1 unfolding E by simp_all
  from T have "(\<exists>pc \<in> set (analyzePackageChanges [?c1, ?c2, ?c3] ?pkgs).
                  packageName pc = name (exampleMember ''c'' ''packages/c''))
         \<longleftrightarrow> (\<exists>c \<in> set [?c1, ?c2, ?c3]. attributed ?pkgs c (name (exampleMember ''c'' ''packages/c'')))"
    by simp
  then have c: "\<not> (\<exists>c \<in> set [?c1, ?c2, ?c3]. attributed ?pkgs c ''c'')"
    unfolding E by (simp add: exampleMember_def)
  from E a b c show ?thesis by blast
qed

text \<open>
  C9. The set of affected packages of a commit has no duplicates, however many of the
  commit's files lie in one package. The attributed commits of a returned record are the
  commits of the input, in order, that are attributed to its package: a commit occurs
  among them no more often than in the input, and not twice when the input has no
  duplicates. One round of the loop leaves a record's list as it is or appends the commit
  once.
\<close>

theorem analyzePackageChanges_once:
  "distinct (affectedPackages commit pkgs)
   \<and> (\<forall>pc \<in> set (analyzePackageChanges commits pkgs).
         affectingCommits pc = filter (\<lambda>c. attributed pkgs c (packageName pc)) commits
         \<and> count_list (affectingCommits pc) commit \<le> count_list commits commit
         \<and> (distinct commits \<longrightarrow> distinct (affectingCommits pc)))
   \<and> (mapGet k m = Some pc0 \<longrightarrow>
         (\<exists>pc'. mapGet k (processCommit pkgs m commit) = Some pc'
            \<and> (affectingCommits pc' = affectingCommits pc0
                \<or> affectingCommits pc' = affectingCommits pc0 @ [commit])))"
proof (intro conjI ballI impI)
  show "distinct (affectedPackages commit pkgs)" by (rule distinct_affectedPackages)
next
  fix pc assume pc: "pc \<in> set (analyzePackageChanges commits pkgs)"
  from analyze_commits [OF pc]
  show ac: "affectingCommits pc = filter (\<lambda>c. attributed pkgs c (packageName pc)) commits" .
  show "count_list (affectingCommits pc) commit \<le> count_list commits commit"
    unfolding ac by (rule count_list_filter)
  assume "distinct commits"
  then show "distinct (affectingCommits pc)" unfolding ac by simp
next
  assume "mapGet k m = Some pc0"
  from processCommit_step [OF this]
  show "\<exists>pc'. mapGet k (processCommit pkgs m commit) = Some pc'
            \<and> (affectingCommits pc' = affectingCommits pc0
                \<or> affectingCommits pc' = affectingCommits pc0 @ [commit])" .
qed

theorem analyzePackageChanges_once_witness:
  "affectedPackages (exampleCommit ''c2'' Major [''packages/a/x.ts'', ''packages/a/index.ts''])
      [exampleMember ''a'' ''packages/a'', exampleMember ''b'' ''packages/b''] = [''a'']
   \<and> analyzePackageChanges
        [exampleCommit ''c2'' Major [''packages/a/x.ts'', ''packages/a/index.ts'']]
        [exampleMember ''a'' ''packages/a'', exampleMember ''b'' ''packages/b'']
      = [\<lparr>packageName = ''a'', packagePath = ''packages/a'',
          affectingCommits = [exampleCommit ''c2'' Major [''packages/a/x.ts'', ''packages/a/index.ts'']],
          suggestedReleaseType = Major\<rparr>]
   \<and> distinct [exampleCommit ''c2'' Major [''packages/a/x.ts'', ''packages/a/index.ts'']]
   \<and> count_list [exampleCommit ''c2'' Major [''packages/a/x.ts'', ''packages/a/index.ts'']]
         (exampleCommit ''c2'' Major [''packages/a/x.ts'', ''packages/a/index.ts'']) \<le> 1
   \<and> mapGet ''a'' (initialMap [exampleMember ''a'' ''packages/a'', exampleMember ''b'' ''packages/b''])
       = Some (initialPackageChange (exampleMember ''a'' ''packages/a''))
   \<and> (\<exists>pc'. mapGet ''a''
               (processCommit [exampleMember ''a'' ''packages/a'', exampleMember ''b'' ''packages/b'']
                  (initialMap [exampleMember ''a'' ''packages/a'', exampleMember ''b'' ''packages/b''])
                  (exampleCommit ''c2'' Major [''packages/a/x.ts'', ''packages/a/index.ts''])) = Some pc'
            \<and> length (affectingCommits pc') \<le> 1)"
proof -
  let ?c2 = "exampleCommit ''c2'' Major [''packages/a/x.ts'', ''packages/a/index.ts'']"
  let ?pkgs = "[exampleMember ''a'' ''packages/a'', exampleMember ''b'' ''packages/b'']"
  note T = analyzePackageChanges_once [of ?c2 ?pkgs "[?c2]" "''a''" "initialMap ?pkgs"
      "initialPackageChange (exampleMember ''a'' ''packages/a'')"]
  have ap: "affectedPackages ?c2 ?pkgs = [''a'']"
    by (simp add: affectedPackages_def setAdd_def exampleCommit_def exampleMember_def
          isFileInPackage_def normalize_def path_sep_def startsWith_def)
  have E: "analyzePackageChanges [?c2] ?pkgs =
      [\<lparr>packageName = ''a'', packagePath = ''packages/a'', affectingCommits = [?c2],
         suggestedReleaseType = Major\<rparr>]"
    by (simp add: analyzePackageChanges_def packageChangesMap_def initialMap_def
       initialPackageChange_def processCommit_def affectedPackages_def setAdd_def
       updatePackage_def mapGet_def mapValues_def recordCommit_def exampleCommit_def
       exampleMember_def isFileInPackage_def normalize_def path_sep_def startsWith_def)
  have d: "distinct [?c2]" by simp
  from T have "\<forall>pc \<in> set (analyzePackageChanges [?c2] ?pkgs).
      count_list (affectingCommits pc) ?c2 \<le> count_list [?c2] ?c2" by blast
  then have cnt: "count_list [?c2] ?c2 \<le> 1" unfolding E by simp
  have g: "mapGet ''a'' (initialMap ?pkgs) = Some (initialPackageChange (exampleMember ''a'' ''packages/a''))"
    by (simp add: initialMap_def mapGet_def exampleMember_def)
  with T have "\<exists>pc'. mapGet ''a'' (processCommit ?pkgs (initialMap ?pkgs) ?c2) = Some pc'
            \<and> (affectingCommits pc' = affectingCommits (initialPackageChange (exampleMember ''a'' ''packages/a''))
                \<or> affectingCommits pc' = affectingCommits (initialPackageChange (exampleMember ''a'' ''packages/a'')) @ [?c2])"
    by blast
  then have st: "\<exists>pc'. mapGet ''a'' (processCommit ?pkgs (initialMap ?pkgs) ?c2) = Some pc'
            \<and> length (affectingCommits pc') \<le> 1"
    by (auto simp: initialPackageChange_def)
  from ap E d cnt g st show ?thesis by blast
qed


subsection \<open>Commits in a range\<close>

lemma commitsResultOf_blank: "set (commitsResultOf logLines) \<subseteq> {[]}"
  by (auto simp: commitsResultOf_def)

lemma assembleCommit_blank: "assembleCommit g [] = Inr None"
  by (simp add: assembleCommit_def)

lemma commitLoop_blank: "set blocks \<subseteq> {[]} \<Longrightarrow> commitLoop g blocks commits = Inr commits"
  by (induction blocks arbitrary: commits) (simp_all add: assembleCommit_blank)

text \<open>Whatever the repository holds, no commit record is ever returned.\<close>

lemma getCommitsInRange_never:
  "getCommitsInRange g fromRef toRef = Inr commits \<Longrightarrow> commits = []"
  by (auto simp: getCommitsInRange_def commitsInRangeBody_def Let_def
        commitLoop_blank [OF commitsResultOf_blank]
      split: sum.splits option.splits if_splits)

text \<open>
  C2. The specification asks for one record per well-formed log entry. The first loop
  keeps the blank lines only, so a log of one well-formed entry of seven fields gives no
  record, although the second loop, run on that entry, assembles the record the
  specification describes: message, classification and changed files.
\<close>

theorem getCommitsInRange_drops_entries:
  "trim exampleLogLine \<noteq> []
   \<and> length (splitStr (CHR ''|'') exampleLogLine) = 7
   \<and> commitsResultOf [exampleLogLine] = []
   \<and> getCommitsInRange (exampleGit [] (\<lambda>rangeSpec. [exampleLogLine])) (Some ''v1.0.0'') None = Inr []
   \<and> commitLoop (exampleGit [] (\<lambda>rangeSpec. [exampleLogLine])) [exampleLogLine] [] =
       Inr [\<lparr>c_hash = ''4b825dc0'', shortHash = ''4b825dc'', rawMessage = ''feat: add x'',
             c_type = ''feat'', c_scope = None, description = ''add x'', c_body = None,
             breakingChange = None, isBreaking = False, releaseType = Minor,
             c_author = \<lparr>author_name = ''A'', author_email = ''a@example.org'',
                         author_date = ''2024-01-15T10:00:00+00:00''\<rparr>,
             changedFiles = [''src/x.ts'']\<rparr>]"
  by (simp add: exampleLogLine_def exampleGit_def getCommitsInRange_def commitsInRangeBody_def
        startRefOf_def rangeSpecOf_def commitsResultOf_def trim_def isWhiteSpace_def
        assembleCommit_def element_def orElse_def orUndefined_def breakingNoteText_def
        hasBreakingNote_def determineReleaseType_def getChangedFilesForCommit_def)

text \<open>
  C3. The specification asks for exactly one record, the root commit, in a repository
  without tags whose only commit is the root commit. There the starting point is the
  root commit, the range handed to the log is \<^verbatim>\<open>4b825dc..HEAD\<close>, which
  excludes the root commit, and the call returns no record; it returns none either when
  the log prints the root commit for every range.
\<close>

theorem getCommitsInRange_root_excluded:
  "getLatestVersionTag (gitTag (exampleGit [] (\<lambda>rangeSpec. if rangeSpec = ''4b825dc..HEAD'' then [] else [exampleLogLine]))) = None
   \<and> startRefOf (exampleGit [] (\<lambda>rangeSpec. if rangeSpec = ''4b825dc..HEAD'' then [] else [exampleLogLine])) None = Inr ''4b825dc''
   \<and> rangeSpecOf ''4b825dc'' ''HEAD'' = ''4b825dc..HEAD''
   \<and> getCommitsInRange (exampleGit [] (\<lambda>rangeSpec. if rangeSpec = ''4b825dc..HEAD'' then [] else [exampleLogLine])) None None = Inr []
   \<and> getCommitsInRange (exampleGit [] (\<lambda>rangeSpec. [exampleLogLine])) None None = Inr []"
  by (simp add: exampleLogLine_def exampleGit_def getCommitsInRange_def commitsInRangeBody_def
        startRefOf_def latestTagOrRoot_def getLatestVersionTag_def getAllTags_def
        rangeSpecOf_def commitsResultOf_def trim_def isWhiteSpace_def)


subsection \<open>Finding a package by path\<close>

lemma firstContaining_find:
  "firstContaining q pkgs =
     find (\<lambda>pkg. descendantOf q (relativePath pkg) \<or> q = relativePath pkg) pkgs"
  by (induction pkgs) (simp_all add: descendantOf_def startsWith_def)

lemma find_no_exact:
  "\<forall>pkg \<in> set pkgs. relativePath pkg \<noteq> q \<Longrightarrow>
     find (\<lambda>pkg. descendantOf q (relativePath pkg) \<or> q = relativePath pkg) pkgs
       = find (\<lambda>pkg. descendantOf q (relativePath pkg)) pkgs"
  by (induction pkgs) auto

lemma findInPackages_exact:
  assumes "\<exists>pkg \<in> set pkgs. relativePath pkg = q"
  shows "\<exists>i < length pkgs. findInPackages pkgs q = Some (pkgs ! i) \<and> relativePath (pkgs ! i) = q
           \<and> (\<forall>j < i. relativePath (pkgs ! j) \<noteq> q)"
proof -
  from assms have "find (\<lambda>pkg. relativePath pkg = q) pkgs \<noteq> None"
    by (auto simp: find_None_iff)
  then obtain pkg where f: "find (\<lambda>pkg. relativePath pkg = q) pkgs = Some pkg" by auto
  then have "findInPackages pkgs q = Some pkg" by (simp add: findInPackages_def)
  with f show ?thesis by (auto simp: find_Some_iff)
qed

lemma findInPackages_descendant:
  assumes "\<forall>pkg \<in> set pkgs. relativePath pkg \<noteq> q"
  shows "findInPackages pkgs q = find (\<lambda>pkg. descendantOf q (relativePath pkg)) pkgs"
proof -
  from assms have "find (\<lambda>pkg. relativePath pkg = q) pkgs = None"
    by (auto simp: find_None_iff)
  then show ?thesis
    by (simp add: findInPackages_def firstContaining_find find_no_exact [OF assms])
qed

lemma example_find:
  "findInPackages [exampleMember ''a'' ''packages/a'', exampleMember ''ab'' ''packages/ab'']
      ''packages/a/src/x.ts'' = Some (exampleMember ''a'' ''packages/a'')"
  "findInPackages [exampleMember ''ab'' ''packages/ab'', exampleMember ''a'' ''packages/a'']
      ''packages/a/src/x.ts'' = Some (exampleMember ''a'' ''packages/a'')"
  "findInPackages [exampleMember ''a'' ''packages/a''] ''packages/ab/src/x.ts'' = None"
  by (simp_all add: findInPackages_def exampleMember_def startsWith_def path_sep_def)

text \<open>
  The search of \<open>findPackageByPath\<close> over the list of packages it is given: when a
  package has exactly this relative path, the first such package is returned; otherwise
  the first package of the list of which the path is a descendant, that is, whose
  relative path followed by the separator is a prefix of the path; otherwise none.
\<close>

lemma findInPackages_policy:
  "((\<exists>pkg \<in> set pkgs. relativePath pkg = q) \<longrightarrow>
        (\<exists>i < length pkgs. findInPackages pkgs q = Some (pkgs ! i) \<and> relativePath (pkgs ! i) = q
           \<and> (\<forall>j < i. relativePath (pkgs ! j) \<noteq> q)))
   \<and> ((\<forall>pkg \<in> set pkgs. relativePath pkg \<noteq> q) \<longrightarrow>
        (findInPackages pkgs q = None \<longleftrightarrow> (\<forall>pkg \<in> set pkgs. \<not> descendantOf q (relativePath pkg)))
        \<and> (\<forall>found. findInPackages pkgs q = Some found \<longleftrightarrow>
              (\<exists>i < length pkgs. found = pkgs ! i \<and> descendantOf q (relativePath (pkgs ! i))
                 \<and> (\<forall>j < i. \<not> descendantOf q (relativePath (pkgs ! j))))))
   \<and> (descendantOf q dir \<longleftrightarrow> (\<exists>rest. q = dir @ ''/'' @ rest))"
proof -
  have d: "descendantOf q dir \<longleftrightarrow> (\<exists>rest. q = dir @ ''/'' @ rest)"
    by (auto simp: descendantOf_def path_sep_def prefix_def)
  have n: "(\<forall>pkg \<in> set pkgs. relativePath pkg \<noteq> q) \<longrightarrow>
        (findInPackages pkgs q = None \<longleftrightarrow> (\<forall>pkg \<in> set pkgs. \<not> descendantOf q (relativePath pkg)))
        \<and> (\<forall>found. findInPackages pkgs q = Some found \<longleftrightarrow>
              (\<exists>i < length pkgs. found = pkgs ! i \<and> descendantOf q (relativePath (pkgs ! i))
                 \<and> (\<forall>j < i. \<not> descendantOf q (relativePath (pkgs ! j)))))"
    by (auto simp: findInPackages_descendant find_None_iff find_Some_iff)
  show ?thesis
    using findInPackages_exact [of pkgs q] n d by blast
qed

text \<open>
  The list that is searched is the list \<open>getWorkspacePackages\<close> has sorted: when the
  comparison is a strict weak order, no member of the sorted list compares less than a
  member before it, and the sorted list has the members of the unsorted one.
\<close>

lemma set_insertSorted: "set (insertSorted cmp x ys) = insert x (set ys)"
  by (induction ys) auto

lemma length_insertSorted: "length (insertSorted cmp x ys) = Suc (length ys)"
  by (induction ys) auto

lemma sorted_insertSorted:
  assumes asym: "\<And>a b. cmp a b < 0 \<Longrightarrow> \<not> cmp b a < 0"
    and trans: "\<And>a b c. cmp a b < 0 \<Longrightarrow> \<not> cmp c b < 0 \<Longrightarrow> \<not> cmp c a < 0"
    and "sorted_wrt (\<lambda>x y. \<not> cmp (name y) (name x) < 0) ys"
  shows "sorted_wrt (\<lambda>x y. \<not> cmp (name y) (name x) < 0) (insertSorted cmp x ys)"
  using assms(3)
proof (induction ys)
  case Nil
  then show ?case by simp
next
  case (Cons y ys)
  show ?case
  proof (cases "cmp (name x) (name y) < 0")
    case True
    have "\<not> cmp (name y) (name x) < 0" using asym [OF True] .
    moreover have "\<forall>z \<in> set ys. \<not> cmp (name z) (name x) < 0"
      using Cons.prems trans [OF True] by auto
    ultimately show ?thesis using True Cons.prems by simp
  next
    case False
    with Cons show ?thesis by (auto simp: set_insertSorted)
  qed
qed

lemma sortByName_acc:
  assumes asym: "\<And>a b. cmp a b < 0 \<Longrightarrow> \<not> cmp b a < 0"
    and trans: "\<And>a b c. cmp a b < 0 \<Longrightarrow> \<not> cmp c b < 0 \<Longrightarrow> \<not> cmp c a < 0"
  shows "sorted_wrt (\<lambda>x y. \<not> cmp (name y) (name x) < 0) acc \<Longrightarrow>
         sorted_wrt (\<lambda>x y. \<not> cmp (name y) (name x) < 0)
           (foldl (\<lambda>sorted x. insertSorted cmp x sorted) acc ms)"
    and "set (foldl (\<lambda>sorted x. insertSorted cmp x sorted) acc ms) = set acc \<union> set ms"
    and "length (foldl (\<lambda>sorted x. insertSorted cmp x sorted) acc ms) = length acc + length ms"
proof (induction ms arbitrary: acc)
  case Nil
  { case 1 then show ?case by simp }
  { case 2 show ?case by simp }
  { case 3 show ?case by simp }
next
  case (Cons m ms)
  { case 1
    from sorted_insertSorted [OF asym trans 1]
    have "sorted_wrt (\<lambda>x y. \<not> cmp (name y) (name x) < 0) (insertSorted cmp m acc)" .
    from Cons.IH(1) [OF this] show ?case by simp }
  { case 2 show ?case by (simp add: Cons.IH(2) set_insertSorted) }
  { case 3 show ?case by (simp add: Cons.IH(3) length_insertSorted) }
qed


lemma compareCodes_asym: "compareCodes a b < 0 \<Longrightarrow> \<not> compareCodes b a < 0"
  by (induction a b rule: compareCodes.induct) (auto split: if_splits)

lemma compareCodes_trans:
  "compareCodes a b < 0 \<Longrightarrow> \<not> compareCodes c b < 0 \<Longrightarrow> \<not> compareCodes c a < 0"
proof (induction a b arbitrary: c rule: compareCodes.induct)
  case 1
  then show ?case by simp
next
  case (2 y ys)
  then show ?case by (cases c) simp_all
next
  case (3 x xs)
  then show ?case by simp
next
  case (4 x xs y ys)
  then show ?case by (cases c) (auto split: if_splits)
qed

lemma sortByName_sorted:
  assumes "\<And>a b. cmp a b < 0 \<Longrightarrow> \<not> cmp b a < 0"
    and "\<And>a b c. cmp a b < 0 \<Longrightarrow> \<not> cmp c b < 0 \<Longrightarrow> \<not> cmp c a < 0"
  shows "sorted_wrt (\<lambda>x y. \<not> cmp (name y) (name x) < 0) (sortByName cmp ms)"
    and "set (sortByName cmp ms) = set ms"
    and "length (sortByName cmp ms) = length ms"
  using sortByName_acc [of cmp "[]" ms, OF assms] by (simp_all add: sortByName_def)

lemma sortByName_compareCodes:
  "sorted_wrt (\<lambda>x y. \<not> compareCodes (name y) (name x) < 0) (sortByName compareCodes ms)"
  by (rule sortByName_sorted(1) [OF compareCodes_asym compareCodes_trans])

text \<open>
  C5. The specification asks that a path resolve to the workspace member that holds it.
  In a repository whose root manifest declares the pattern \<^verbatim>\<open>packages/*\<close> and whose
  members \<^verbatim>\<open>packages/a\<close> and \<^verbatim>\<open>packages/ab\<close> hold manifests, the root manifest is looked
  for under the untrimmed output of \<^verbatim>\<open>git rev-parse --show-toplevel\<close>, at a path with a
  line feed before \<^verbatim>\<open>/package.json\<close>: it is not found, the repository is taken for a
  single package, the list of members is empty, and \<open>findPackageByPath\<close> returns none
  for \<^verbatim>\<open>packages/a/src/x.ts\<close> and for \<^verbatim>\<open>packages/ab\<close>. On the same repository with the
  line feed trimmed, the members are listed sorted by name, \<^verbatim>\<open>packages/a/src/x.ts\<close>
  resolves to \<^verbatim>\<open>packages/a\<close> and \<^verbatim>\<open>packages/ab\<close> to itself.
\<close>

theorem findPackageByPath_untrimmed_toplevel:
  "path_join (''/repo'' @ [CHR 0x0A]) ''package.json'' = ''/repo'' @ [CHR 0x0A] @ ''/package.json''
   \<and> fst (getRootPackageJson (exampleMonorepo (''/repo'' @ [CHR 0x0A]))
            (newWorkspaceUtils (exampleMonorepo (''/repo'' @ [CHR 0x0A]))))
       = Inl (Error ''Failed to parse package.json: ENOENT'')
   \<and> fst (getWorkspacePackages (exampleMonorepo (''/repo'' @ [CHR 0x0A]))
            (newWorkspaceUtils (exampleMonorepo (''/repo'' @ [CHR 0x0A])))) = Inr []
   \<and> fst (findPackageByPath (exampleMonorepo (''/repo'' @ [CHR 0x0A]))
            (newWorkspaceUtils (exampleMonorepo (''/repo'' @ [CHR 0x0A]))) ''packages/a/src/x.ts'')
       = Inr None
   \<and> fst (findPackageByPath (exampleMonorepo (''/repo'' @ [CHR 0x0A]))
            (newWorkspaceUtils (exampleMonorepo (''/repo'' @ [CHR 0x0A]))) ''packages/ab'')
       = Inr None
   \<and> fst (getWorkspacePackages (exampleMonorepo ''/repo'') (newWorkspaceUtils (exampleMonorepo ''/repo'')))
       = Inr [exampleMember ''a'' ''packages/a'', exampleMember ''ab'' ''packages/ab'']
   \<and> fst (findPackageByPath (exampleMonorepo ''/repo'') (newWorkspaceUtils (exampleMonorepo ''/repo''))
            ''packages/a/src/x.ts'')
       = Inr (Some (exampleMember ''a'' ''packages/a''))
   \<and> fst (findPackageByPath (exampleMonorepo ''/repo'') (newWorkspaceUtils (exampleMonorepo ''/repo''))
            ''packages/ab'')
       = Inr (Some (exampleMember ''ab'' ''packages/ab''))"
  by (simp add: exampleMonorepo_def exampleManifest_def exampleMember_def newWorkspaceUtils_def
        findPackageByPath_def findInPackages_def getWorkspacePackages_def getIsMonorepo_def
        getRootPackageJson_def path_join_def normalize_def membersOfPattern_def memberAt_def
        List.map_filter_simps sortByName_def orElse_def basename_def startsWith_def path_sep_def
        Let_def)


subsection \<open>Files of the root package\<close>

lemma includesStr_sep: "includesStr s path_sep \<longleftrightarrow> CHR ''/'' \<in> set s"
  by (induction s) (auto simp: path_sep_def)

lemma normalize_root: "normalize ''.'' = ''.''" "normalize [] = ''.''"
  by (simp_all add: normalize_def)

lemma isFileInPackage_root:
  assumes "pkgPath = ''.'' \<or> pkgPath = []"
  shows "isFileInPackage f pkgPath \<longleftrightarrow>
           CHR ''/'' \<notin> set (normalize f) \<or> (\<exists>rest. normalize f = CHR ''.'' # rest)"
  using assms
  by (auto simp: isFileInPackage_def normalize_root includesStr_sep startsWith_def prefix_def)

lemma isFileInPackage_nested:
  assumes "startsWith (normalize f) (normalize member @ path_sep)"
    and "\<not> startsWith (normalize member) ''.''"
  shows "\<not> isFileInPackage f ''.''" "\<not> isFileInPackage f []"
proof -
  from assms(1) obtain rest where nf: "normalize f = normalize member @ ''/'' @ rest"
    by (auto simp: startsWith_def prefix_def path_sep_def)
  then have sep: "CHR ''/'' \<in> set (normalize f)" by simp
  have "\<not> (\<exists>r. normalize f = CHR ''.'' # r)"
  proof (cases "normalize member")
    case Nil
    with nf show ?thesis by simp
  next
    case (Cons c r)
    with assms(2) have "c \<noteq> CHR ''.''" by (simp add: startsWith_def)
    with nf Cons show ?thesis by simp
  qed
  with sep show "\<not> isFileInPackage f ''.''" "\<not> isFileInPackage f []"
    by (simp_all add: isFileInPackage_root)
qed

lemma normalizeSegments_clean:
  "list_all (\<lambda>seg. seg \<noteq> [] \<and> seg \<noteq> ''.'' \<and> seg \<noteq> ''..'') segs \<Longrightarrow>
     normalizeSegments allow res segs = res @ segs"
  by (induction segs arbitrary: res) simp_all

lemma joinStr_splitStr: "joinStr [sep] (splitStr sep s) = s"
proof (induction s)
  case Nil
  show ?case by simp
next
  case (Cons c s)
  obtain piece pieces where sp: "splitStr sep s = piece # pieces"
    using splitStr_ne [of sep s] by (cases "splitStr sep s") auto
  show ?case
  proof (cases "c = sep")
    case True
    with Cons sp show ?thesis by simp
  next
    case False
    with Cons sp show ?thesis by (cases pieces) simp_all
  qed
qed

lemma splitStr_last: "s \<noteq> [] \<Longrightarrow> last s = sep \<Longrightarrow> last (splitStr sep s) = []"
proof (induction s)
  case Nil
  then show ?case by simp
next
  case (Cons c s)
  obtain piece pieces where sp: "splitStr sep s = piece # pieces"
    using splitStr_ne [of sep s] by (cases "splitStr sep s") auto
  show ?case
  proof (cases "s = []")
    case True
    with Cons.prems show ?thesis by simp
  next
    case False
    with Cons have l: "last (splitStr sep s) = []" by simp
    show ?thesis
    proof (cases "c = sep")
      case True
      with l sp show ?thesis by simp
    next
      case False
      have "pieces \<noteq> []"
      proof
        assume "pieces = []"
        with l sp have "splitStr sep s = [[]]" by simp
        from splitStr_Cons [OF this] \<open>s \<noteq> []\<close> show False by simp
      qed
      with False l sp show ?thesis by simp
    qed
  qed
qed

lemma normalize_clean:
  assumes "cleanPath p"
  shows "normalize p = p"
proof -
  let ?segs = "splitStr (CHR ''/'') p"
  from assms have ne: "p \<noteq> []"
    and cl: "list_all (\<lambda>seg. seg \<noteq> [] \<and> seg \<noteq> ''.'' \<and> seg \<noteq> ''..'') ?segs"
    by (simp_all add: cleanPath_def)
  have hd: "hd p \<noteq> CHR ''/''"
  proof
    assume "hd p = CHR ''/''"
    with ne obtain s where "p = CHR ''/'' # s" by (cases p) auto
    with cl show False by simp
  qed
  have lst: "last p \<noteq> CHR ''/''"
  proof
    assume "last p = CHR ''/''"
    from splitStr_last [OF ne this] have "last ?segs = []" .
    moreover have "last ?segs \<in> set ?segs" using splitStr_ne by simp
    ultimately show False using cl by (auto simp: list_all_iff)
  qed
  have res: "joinStr ''/'' (normalizeSegments True [] ?segs) = p"
    by (simp add: normalizeSegments_clean [OF cl] joinStr_splitStr)
  show ?thesis
    using ne hd lst by (simp add: normalize_def res)
qed

lemma root_swallows:
  "isFileInPackage ''.pkgs/a/x.ts'' ''.pkgs/a''"
  "isFileInPackage ''.pkgs/a/x.ts'' ''.''"
  "isFileInPackage ''.github/workflows/ci.yml'' ''.''"
  "includesStr ''.github/workflows/ci.yml'' path_sep"
  "normalize ''.pkgs/a'' = ''.pkgs/a''"
  by (simp_all add: isFileInPackage_def normalize_def path_sep_def startsWith_def)

text \<open>
  C7, as stated, fails: the root member also matches every path that starts with a dot,
  so a file of the nested member \<^verbatim>\<open>.pkgs/a\<close> is attributed to the root member too, and
  so is a file under \<^verbatim>\<open>.github\<close>, which holds a separator and is no dotfile at the root.
\<close>

theorem isFileInPackage_root_counterexample:
  "isFileInPackage ''.pkgs/a/x.ts'' ''.pkgs/a''
   \<and> isFileInPackage ''.pkgs/a/x.ts'' ''.''
   \<and> isFileInPackage ''.github/workflows/ci.yml'' ''.''
   \<and> includesStr ''.github/workflows/ci.yml'' path_sep
   \<and> \<not> (\<forall>f member. normalize member \<noteq> ''.'' \<and> isFileInPackage f member \<longrightarrow> \<not> isFileInPackage f ''.'')"
proof -
  have "\<not> (\<forall>f member. normalize member \<noteq> ''.'' \<and> isFileInPackage f member \<longrightarrow> \<not> isFileInPackage f ''.'')"
  proof
    assume "\<forall>f member. normalize member \<noteq> ''.'' \<and> isFileInPackage f member \<longrightarrow> \<not> isFileInPackage f ''.''"
    then have "normalize ''.pkgs/a'' \<noteq> ''.'' \<and> isFileInPackage ''.pkgs/a/x.ts'' ''.pkgs/a''
        \<longrightarrow> \<not> isFileInPackage ''.pkgs/a/x.ts'' ''.''" by blast
    with root_swallows show False by simp
  qed
  with root_swallows show ?thesis by blast
qed

text \<open>
  C7, amended. A root member (relative path \<^verbatim>\<open>.\<close> or empty) matches a changed file
  exactly when the normalised file path holds no separator or starts with a dot; for a
  path in normal form that is the path itself. A file below a nested member whose
  normalised path does not start with a dot is not attributed to the root member.
\<close>

theorem isFileInPackage_root_rule:
  "(pkgPath = ''.'' \<or> pkgPath = [] \<longrightarrow>
      (isFileInPackage f pkgPath \<longleftrightarrow>
         CHR ''/'' \<notin> set (normalize f) \<or> (\<exists>rest. normalize f = CHR ''.'' # rest)))
   \<and> (cleanPath f \<longrightarrow> normalize f = f)
   \<and> (cleanPath f \<and> (pkgPath = ''.'' \<or> pkgPath = []) \<longrightarrow>
        (isFileInPackage f pkgPath \<longleftrightarrow> CHR ''/'' \<notin> set f \<or> (\<exists>rest. f = CHR ''.'' # rest)))
   \<and> (startsWith (normalize f) (normalize member @ path_sep) \<and> \<not> startsWith (normalize member) ''.''
        \<longrightarrow> \<not> isFileInPackage f ''.'' \<and> \<not> isFileInPackage f [])"
  using isFileInPackage_root [of pkgPath f] normalize_clean [of f]
    isFileInPackage_nested [of f member]
  by metis

theorem isFileInPackage_root_rule_witness:
  "cleanPath ''README.md'' \<and> isFileInPackage ''README.md'' ''.''
   \<and> cleanPath ''.gitignore'' \<and> isFileInPackage ''.gitignore'' []
   \<and> cleanPath ''packages/a/index.ts'' \<and> \<not> isFileInPackage ''packages/a/index.ts'' ''.''
   \<and> startsWith (normalize ''packages/a/index.ts'') (normalize ''packages/a'' @ path_sep)
   \<and> \<not> startsWith (normalize ''packages/a'') ''.''
   \<and> \<not> isFileInPackage ''packages/a/index.ts'' []"
proof -
  have c: "cleanPath ''README.md''" "cleanPath ''.gitignore''" "cleanPath ''packages/a/index.ts''"
    by (simp_all add: cleanPath_def)
  have n: "startsWith (normalize ''packages/a/index.ts'') (normalize ''packages/a'' @ path_sep)"
    "\<not> startsWith (normalize ''packages/a'') ''.''"
    by (simp_all add: normalize_def startsWith_def path_sep_def)
  from c isFileInPackage_root_rule [of "''.''" "''README.md''" "''packages/a''"]
  have 1: "isFileInPackage ''README.md'' ''.''" by simp
  from c isFileInPackage_root_rule [of "[]" "''.gitignore''" "''packages/a''"]
  have 2: "isFileInPackage ''.gitignore'' []" by simp
  from c isFileInPackage_root_rule [of "''.''" "''packages/a/index.ts''" "''packages/a''"]
  have 3: "\<not> isFileInPackage ''packages/a/index.ts'' ''.''" by simp
  from n isFileInPackage_root_rule [of "''.''" "''packages/a/index.ts''" "''packages/a''"]
  have 4: "\<not> isFileInPackage ''packages/a/index.ts'' []" by blast
  from c n 1 2 3 4 show ?thesis by blast
qed


subsection \<open>Single-package repositories\<close>

lemma getIsMonorepo_new:
  "fst (getIsMonorepo env (newWorkspaceUtils env)) = declaresWorkspaces env"
  by (auto simp: getIsMonorepo_def getRootPackageJson_def newWorkspaceUtils_def
        declaresWorkspaces_def
      split: sum.splits json_file.splits workspaces_field.splits)

lemma getWorkspacePackages_single:
  assumes "\<not> declaresWorkspaces env"
  shows "fst (getWorkspacePackages env (newWorkspaceUtils env)) = Inr []"
    and "workspaceMembers (snd (getWorkspacePackages env (newWorkspaceUtils env))) = Some []"
proof -
  obtain b this1 where g: "getIsMonorepo env (newWorkspaceUtils env) = (b, this1)"
    by (cases "getIsMonorepo env (newWorkspaceUtils env)")
  with getIsMonorepo_new [of env] assms have "\<not> b" by simp
  with g show "fst (getWorkspacePackages env (newWorkspaceUtils env)) = Inr []"
    and "workspaceMembers (snd (getWorkspacePackages env (newWorkspaceUtils env))) = Some []"
    by (simp_all add: getWorkspacePackages_def newWorkspaceUtils_def)
qed

lemma getWorkspacePackages_cached:
  "workspaceMembers this = Some members \<Longrightarrow> getWorkspacePackages env this = (Inr members, this)"
  by (simp add: getWorkspacePackages_def)

lemma find_single:
  assumes "fst (getWorkspacePackages env this) = Inr []"
  shows "fst (findPackageByName env this wanted) = Inr None"
    and "fst (findPackageByPath env this relPath) = Inr None"
  using assms
  by (auto simp: findPackageByName_def findPackageByPath_def findInPackages_def
      split: prod.splits sum.splits)

text \<open>
  C8. On a fresh instance, \<open>getIsMonorepo\<close> is true exactly when the root manifest can be
  read and declares a non-empty array of workspace patterns. Otherwise
  \<open>getWorkspacePackages\<close> returns the empty list, without the root package, and
  \<open>findPackageByName\<close> and \<open>findPackageByPath\<close> return none for every input, on the first
  call and on every later call on the instance, which has cached the empty list.
\<close>

theorem getWorkspacePackages_not_monorepo:
  "fst (getIsMonorepo env (newWorkspaceUtils env)) = declaresWorkspaces env
   \<and> (\<not> declaresWorkspaces env \<longrightarrow>
        fst (getWorkspacePackages env (newWorkspaceUtils env)) = Inr []
        \<and> fst (findPackageByName env (newWorkspaceUtils env) wanted) = Inr None
        \<and> fst (findPackageByPath env (newWorkspaceUtils env) relPath) = Inr None
        \<and> fst (getWorkspacePackages env' (snd (getWorkspacePackages env (newWorkspaceUtils env)))) = Inr []
        \<and> fst (findPackageByName env' (snd (getWorkspacePackages env (newWorkspaceUtils env))) wanted) = Inr None
        \<and> fst (findPackageByPath env' (snd (getWorkspacePackages env (newWorkspaceUtils env))) relPath) = Inr None)"
proof (intro conjI impI)
  show "fst (getIsMonorepo env (newWorkspaceUtils env)) = declaresWorkspaces env"
    by (rule getIsMonorepo_new)
next
  assume a: "\<not> declaresWorkspaces env"
  let ?this1 = "snd (getWorkspacePackages env (newWorkspaceUtils env))"
  from getWorkspacePackages_single [OF a]
  have c: "workspaceMembers ?this1 = Some []" by simp
  from getWorkspacePackages_single [OF a]
  show 1: "fst (getWorkspacePackages env (newWorkspaceUtils env)) = Inr []" by simp
  from find_single [OF 1]
  show "fst (findPackageByName env (newWorkspaceUtils env) wanted) = Inr None"
    and "fst (findPackageByPath env (newWorkspaceUtils env) relPath) = Inr None" by simp_all
  from getWorkspacePackages_cached [OF c]
  show 2: "fst (getWorkspacePackages env' ?this1) = Inr []" by simp
  from find_single [OF 2]
  show "fst (findPackageByName env' ?this1 wanted) = Inr None"
    and "fst (findPackageByPath env' ?this1 relPath) = Inr None" by simp_all
qed

lemma example_envs:
  "\<not> declaresWorkspaces (exampleEnv (Missing ''ENOENT''))"
  "\<not> declaresWorkspaces (exampleEnv (Json \<lparr>pj_name = Some ''bunr'', pj_version = Some ''1.0.0'',
        pj_publishConfig = False, pj_private = False, workspaces = WsAbsent\<rparr>))"
  "\<not> declaresWorkspaces (exampleEnv (Json \<lparr>pj_name = Some ''bunr'', pj_version = Some ''1.0.0'',
        pj_publishConfig = False, pj_private = False, workspaces = WsArray []\<rparr>))"
  "\<not> declaresWorkspaces (exampleEnv (Json \<lparr>pj_name = Some ''bunr'', pj_version = Some ''1.0.0'',
        pj_publishConfig = False, pj_private = False, workspaces = WsObject (Some [''packages/*''])\<rparr>))"
  by (simp_all add: declaresWorkspaces_def exampleEnv_def)

theorem getWorkspacePackages_not_monorepo_witness:
  "\<not> declaresWorkspaces (exampleEnv (Missing ''ENOENT''))
   \<and> fst (getWorkspacePackages (exampleEnv (Missing ''ENOENT''))
            (newWorkspaceUtils (exampleEnv (Missing ''ENOENT'')))) = Inr []
   \<and> fst (findPackageByName (exampleEnv (Missing ''ENOENT''))
            (newWorkspaceUtils (exampleEnv (Missing ''ENOENT''))) ''bunr'') = Inr None
   \<and> \<not> declaresWorkspaces (exampleEnv (Json \<lparr>pj_name = Some ''bunr'', pj_version = Some ''1.0.0'',
        pj_publishConfig = False, pj_private = False, workspaces = WsAbsent\<rparr>))
   \<and> fst (findPackageByPath (exampleEnv (Json \<lparr>pj_name = Some ''bunr'', pj_version = Some ''1.0.0'',
              pj_publishConfig = False, pj_private = False, workspaces = WsAbsent\<rparr>))
            (newWorkspaceUtils (exampleEnv (Json \<lparr>pj_name = Some ''bunr'', pj_version = Some ''1.0.0'',
              pj_publishConfig = False, pj_private = False, workspaces = WsAbsent\<rparr>))) ''src/cli.ts'')
       = Inr None"
  using example_envs
    getWorkspacePackages_not_monorepo [of "exampleEnv (Missing ''ENOENT'')" "''bunr''" "''src/cli.ts''"
      "exampleEnv (Missing ''ENOENT'')"]
    getWorkspacePackages_not_monorepo [of "exampleEnv (Json \<lparr>pj_name = Some ''bunr'', pj_version = Some ''1.0.0'',
              pj_publishConfig = False, pj_private = False, workspaces = WsAbsent\<rparr>)" "''bunr''" "''src/cli.ts''"
      "exampleEnv (Missing ''ENOENT'')"]
  by blast


end
